theory Spec2Isabelle
  imports Main "HOL-Library.Word"
begin

unbundle bit_operations_syntax

section \<open>Go-RCON: wire codec, ID allocator and session controller\<close>

text \<open>
  A shallow embedding of the Go sources: package \<open>packet\<close> (\<open>packet/client.go\<close>,
  \<open>packet/type.go\<close>), the older two-socket codec (\<open>packet.go\<close>, \<open>payload.go\<close>) and the
  single-socket client (\<open>Connect\<close>, \<open>authenticate\<close>, \<open>ExecCommand\<close>, \<open>enqueuePacket\<close>,
  \<open>getResponse\<close>, \<open>Close\<close>, \<open>disconnect\<close>).

  Go's \<open>int32\<close> is \<open>32 word\<close> (\<open>+\<close> and \<open>-\<close> wrap, \<open>sint\<close> reads the signed value), a
  \<open>[]byte\<close> is a list of \<open>8 word\<close>, Go's \<open>error\<close> interface is \<open>error option\<close> with
  \<open>None\<close> for \<open>nil\<close>, and a run-time panic is a result of its own.
\<close>

subsection \<open>Bytes, integers, errors\<close>

type_synonym byte = "8 word"
type_synonym int32 = "32 word"

text \<open>
  The error values the code produces or inspects. \<open>ErrNotConnected\<close>, \<open>ErrAuthentication\<close>,
  \<open>ErrQueueTimeout\<close> and \<open>ErrReadTimeout\<close> are the sentinels of package \<open>errs\<close>; \<open>EOF\<close>,
  \<open>ErrUnexpectedEOF\<close> and \<open>ErrClosedPipe\<close> those of package \<open>io\<close>; \<open>ErrNetClosed\<close> is the
  \<open>net\<close> error whose message ends in "use of closed network connection"; \<open>ErrDeadline\<close> is
  an expired socket deadline; \<open>ErrPayloadTooLarge\<close> and \<open>ErrEmptyBody\<close> are the two
  \<open>fmt.Errorf\<close> values of \<open>packet.go\<close>; \<open>Wrapped e msg\<close> is what \<open>errors.Wrap\<close> builds.
\<close>

datatype error =
    ErrNotConnected
  | ErrAuthentication
  | ErrQueueTimeout
  | ErrReadTimeout
  | EOF
  | ErrUnexpectedEOF
  | ErrClosedPipe
  | ErrNetClosed
  | ErrDeadline
  | ErrDial
  | ErrPayloadTooLarge
  | ErrEmptyBody
  | Wrapped error string

text \<open>
  \<open>errors.Wrap\<close> of \<open>github.com/pkg/errors\<close>: "If err is nil, Wrap returns nil."
\<close>

fun Wrap :: "error option \<Rightarrow> string \<Rightarrow> error option" where
  "Wrap None msg = None"
| "Wrap (Some e) msg = Some (Wrapped e msg)"

text \<open>\<open>errors.Cause\<close>: the innermost error under the wrappers.\<close>

fun Cause :: "error \<Rightarrow> error" where
  "Cause (Wrapped e msg) = Cause e"
| "Cause ErrNotConnected = ErrNotConnected"
| "Cause ErrAuthentication = ErrAuthentication"
| "Cause ErrQueueTimeout = ErrQueueTimeout"
| "Cause ErrReadTimeout = ErrReadTimeout"
| "Cause EOF = EOF"
| "Cause ErrUnexpectedEOF = ErrUnexpectedEOF"
| "Cause ErrClosedPipe = ErrClosedPipe"
| "Cause ErrNetClosed = ErrNetClosed"
| "Cause ErrDeadline = ErrDeadline"
| "Cause ErrDial = ErrDial"
| "Cause ErrPayloadTooLarge = ErrPayloadTooLarge"
| "Cause ErrEmptyBody = ErrEmptyBody"

text \<open>A call either returns a value, returns an error, or panics.\<close>

datatype panic =
    MakeSliceLenOutOfRange
  | NilPointerDereference
  | CloseOfClosedChannel
  | CloseOfNilChannel

datatype 'a outcome = Ok 'a | Err error | Panic panic

subsection \<open>Byte order (package \<open>endian\<close>, \<open>encoding/binary\<close>)\<close>

datatype Mode = Little | Big

text \<open>
  \<open>binary.LittleEndian.PutUint32\<close>: \<open>b[0] = byte(v); b[1] = byte(v >> 8); b[2] = byte(v >> 16);
  b[3] = byte(v >> 24)\<close>; the big-endian order is the reverse.
\<close>

definition PutUint32 :: "Mode \<Rightarrow> int32 \<Rightarrow> byte list" where
  "PutUint32 order v =
     (case order of
        Little \<Rightarrow> [ucast v, ucast (drop_bit 8 v), ucast (drop_bit 16 v), ucast (drop_bit 24 v)]
      | Big \<Rightarrow> [ucast (drop_bit 24 v), ucast (drop_bit 16 v), ucast (drop_bit 8 v), ucast v])"

text \<open>
  \<open>binary.LittleEndian.Uint32\<close>: \<open>uint32(b[0]) | uint32(b[1])<<8 | uint32(b[2])<<16 |
  uint32(b[3])<<24\<close>, on a slice of exactly four bytes (the callers read four).
\<close>

definition Uint32 :: "Mode \<Rightarrow> byte \<Rightarrow> byte \<Rightarrow> byte \<Rightarrow> byte \<Rightarrow> int32" where
  "Uint32 order b0 b1 b2 b3 =
     (case order of
        Little \<Rightarrow> ucast b0 OR push_bit 8 (ucast b1) OR push_bit 16 (ucast b2) OR push_bit 24 (ucast b3)
      | Big \<Rightarrow> ucast b3 OR push_bit 8 (ucast b2) OR push_bit 16 (ucast b1) OR push_bit 24 (ucast b0))"

subsection \<open>Readers (\<open>io.Reader\<close>, \<open>io.ReadFull\<close>, \<open>binary.Read\<close>)\<close>

text \<open>
  An input stream is the bytes it will still deliver and the error it reports once they
  are used up: \<open>EOF\<close> for \<open>bytes.NewReader\<close> and for a socket the peer has closed,
  \<open>ErrDeadline\<close> for a socket whose deadline expires, \<open>ErrNetClosed\<close> for a socket closed
  locally.
\<close>

record Reader =
  pending :: "byte list"
  atEnd :: error

text \<open>
  \<open>io.ReadFull(r, buf)\<close> with \<open>len(buf) = n\<close>: all \<open>n\<close> bytes, or the reader's error
  when nothing was read, or \<open>ErrUnexpectedEOF\<close> when some but not all bytes were read
  before \<open>EOF\<close> (another error is passed on as it is). A read of zero bytes succeeds.
  The reader is returned as the read leaves it.
\<close>

definition ReadFull :: "Reader \<Rightarrow> nat \<Rightarrow> (error + byte list) \<times> Reader" where
  "ReadFull r n =
     (if n \<le> length (pending r) then (Inr (take n (pending r)), r\<lparr>pending := drop n (pending r)\<rparr>)
      else if pending r = [] then (Inl (atEnd r), r)
      else if atEnd r = EOF then (Inl ErrUnexpectedEOF, r\<lparr>pending := []\<rparr>)
      else (Inl (atEnd r), r\<lparr>pending := []\<rparr>))"

text \<open>\<open>binary.Read(reader, mode, &v)\<close> for an \<open>int32\<close>: four bytes through \<open>io.ReadFull\<close>.\<close>

definition ReadInt32 :: "Mode \<Rightarrow> Reader \<Rightarrow> (error + int32) \<times> Reader" where
  "ReadInt32 order r =
     (case ReadFull r 4 of
        (Inl e, r') \<Rightarrow> (Inl e, r')
      | (Inr bs, r') \<Rightarrow> (Inr (Uint32 order (bs ! 0) (bs ! 1) (bs ! 2) (bs ! 3)), r'))"

text \<open>\<open>bytes.NewReader(raw)\<close>: the bytes, then \<open>EOF\<close>.\<close>

definition NewReader :: "byte list \<Rightarrow> Reader" where
  "NewReader raw = \<lparr>pending = raw, atEnd = EOF\<rparr>"

subsection \<open>\<open>bytes.Trim\<close> with a one-byte cutset\<close>

text \<open>
  \<open>bytes.Trim(s, cutset)\<close> with a single ASCII byte in the cutset is
  \<open>trimLeftByte(trimRightByte(s, c), c)\<close>: it removes the byte at both ends.
\<close>

definition trimRightByte :: "byte list \<Rightarrow> byte \<Rightarrow> byte list" where
  "trimRightByte s c = rev (dropWhile (\<lambda>b. b = c) (rev s))"

definition trimLeftByte :: "byte list \<Rightarrow> byte \<Rightarrow> byte list" where
  "trimLeftByte s c = dropWhile (\<lambda>b. b = c) s"

definition Trim :: "byte list \<Rightarrow> byte \<Rightarrow> byte list" where
  "Trim s c = trimLeftByte (trimRightByte s c) c"

subsection \<open>Package \<open>packet\<close>: \<open>ClientPacket\<close> (\<open>packet/client.go\<close>, \<open>packet/type.go\<close>)\<close>

text \<open>
  \<open>type.go\<close>: \<open>TypeAuth = 3\<close>, \<open>TypeAuthRes = 2\<close>, \<open>TypeCommand = 2\<close>, \<open>TypeCommandRes = 0\<close>,
  \<open>AuthFailedID = -1\<close>.
\<close>

definition TypeAuth :: int32 where "TypeAuth = 3"
definition TypeAuthRes :: int32 where "TypeAuthRes = 2"
definition TypeCommand :: int32 where "TypeCommand = 2"
definition TypeCommandRes :: int32 where "TypeCommandRes = 0"
definition AuthFailedID :: int32 where "AuthFailedID = - 1"

text \<open>The struct; its field \<open>id\<close> is \<open>idf\<close> here (\<open>id\<close> is HOL's identity function).\<close>

record ClientPacket =
  mode :: Mode
  pType :: int32
  body :: "byte list"
  idf :: int32

definition int32Bytes :: int32 where "int32Bytes = 4"
definition endPadBytes :: int32 where "endPadBytes = 1"

definition Body :: "ClientPacket \<Rightarrow> byte list" where
  "Body p = body p @ [0]"

text \<open>
  \<open>Size\<close>: \<open>int32Bytes + int32Bytes + int32(len(p.Body())) + endPadBytes\<close>; the conversion
  \<open>int32(len(...))\<close> keeps the low 32 bits, which \<open>of_nat\<close> into \<open>32 word\<close> does.
\<close>

definition Size :: "ClientPacket \<Rightarrow> int32" where
  "Size p = int32Bytes + int32Bytes + of_nat (length (Body p)) + endPadBytes"

definition ID :: "ClientPacket \<Rightarrow> int32" where
  "ID p = idf p"

definition Type :: "ClientPacket \<Rightarrow> int32" where
  "Type p = pType p"

text \<open>
  \<open>Build\<close> writes size, id, type, the null-terminated body and one more null byte into a
  fresh \<open>bytes.Buffer\<close>. \<open>binary.Write\<close> of an \<open>int32\<close>, a \<open>[]byte\<close> or a \<open>byte\<close> into a
  \<open>bytes.Buffer\<close> returns no error, so none of the five error returns is taken, and
  \<open>Build\<close> has no other check.
\<close>

definition Build :: "ClientPacket \<Rightarrow> error + byte list" where
  "Build p =
     (let order = mode p;
          buffer = [];
          buffer = buffer @ PutUint32 order (Size p);
          buffer = buffer @ PutUint32 order (ID p);
          buffer = buffer @ PutUint32 order (Type p);
          buffer = buffer @ Body p;
          buffer = buffer @ [0]
      in Inr buffer)"

text \<open>
  \<open>DecodeClientPacket\<close>: three header reads, each returning its error; then
  \<open>bodyLen := size - 4 - 4\<close> in \<open>int32\<close> and \<open>make([]byte, bodyLen)\<close>, which panics when
  \<open>bodyLen\<close> is negative (the allocation is taken to succeed for every other length);
  then \<open>io.ReadFull\<close> and the two \<open>bytes.Trim\<close> calls, first \<open>"\x00"\<close>, then \<open>"\n"\<close>.
\<close>

definition DecodeClientPacket :: "Mode \<Rightarrow> Reader \<Rightarrow> ClientPacket outcome \<times> Reader" where
  "DecodeClientPacket order reader =
     (case ReadInt32 order reader of
        (Inl e, r1) \<Rightarrow> (Err e, r1)
      | (Inr sz, r1) \<Rightarrow>
     (case ReadInt32 order r1 of
        (Inl e, r2) \<Rightarrow> (Err e, r2)
      | (Inr i, r2) \<Rightarrow>
     (case ReadInt32 order r2 of
        (Inl e, r3) \<Rightarrow> (Err e, r3)
      | (Inr t, r3) \<Rightarrow>
     (let bodyLen = sz - 4 - 4 in
      if sint bodyLen < 0 then (Panic MakeSliceLenOutOfRange, r3)
      else
     (case ReadFull r3 (nat (sint bodyLen)) of
        (Inl e, r4) \<Rightarrow> (Err e, r4)
      | (Inr b, r4) \<Rightarrow>
          (let b = Trim b 0;
               b = Trim b 10
           in (Ok \<lparr>mode = order, pType = t, body = b, idf = i\<rparr>, r4)))))))"

subsection \<open>The ID allocator (\<open>packet/client.go\<close>)\<close>

definition MaxInt32 :: int32 where "MaxInt32 = 0x7FFFFFFF"

fun idInArr :: "int32 list \<Rightarrow> int32 \<Rightarrow> bool" where
  "idInArr [] i = False"
| "idInArr (v # arr) i = (if v = i then True else idInArr arr i)"

text \<open>
  The step \<open>getNextID\<close> takes once before its loop and once in every round of it:
  \<open>if nextClientPacketID+1 == math.MaxInt32 { nextClientPacketID = 1 } else
  { nextClientPacketID++ }\<close>.
\<close>

definition advance :: "int32 \<Rightarrow> int32" where
  "advance n = (if n + 1 = MaxInt32 then 1 else n + 1)"

text \<open>
  The loop \<open>for idInArr(restrictedIDs, nextClientPacketID) { ... }\<close>. It has no bound, so
  the model is a partial function: \<open>None\<close> is the loop that never ends.
\<close>

partial_function (option) skipRestricted :: "int32 list \<Rightarrow> int32 \<Rightarrow> int32 option" where
  "skipRestricted restrictedIDs n =
     (if idInArr restrictedIDs n then skipRestricted restrictedIDs (advance n) else Some n)"

declare skipRestricted.simps [code]

text \<open>
  \<open>getNextID\<close> on the package variable \<open>nextClientPacketID\<close>, passed in; the value
  returned is also the variable's new value.
\<close>

definition getNextID :: "int32 list \<Rightarrow> int32 \<Rightarrow> int32 option" where
  "getNextID restrictedIDs nextClientPacketID =
     skipRestricted restrictedIDs (advance nextClientPacketID)"

text \<open>
  \<open>NewClientPacket\<close>: the packet and the new value of \<open>nextClientPacketID\<close>. A Go string
  is its bytes, so \<open>[]byte(body)\<close> is the identity here.
\<close>

definition NewClientPacket ::
  "Mode \<Rightarrow> int32 \<Rightarrow> byte list \<Rightarrow> int32 list \<Rightarrow> int32 \<Rightarrow> (ClientPacket \<times> int32) option" where
  "NewClientPacket m t b restrictedIDs nextClientPacketID =
     (case getNextID restrictedIDs nextClientPacketID of
        None \<Rightarrow> None
      | Some n \<Rightarrow> Some (\<lparr>mode = m, pType = t, body = b, idf = n\<rparr>, n))"

subsection \<open>The older codec (\<open>packet.go\<close>, \<open>payload.go\<close>)\<close>

definition payloadIDBytes :: nat where "payloadIDBytes = 4"
definition payloadTypeBytes :: nat where "payloadTypeBytes = 4"
definition payloadNullBytes :: nat where "payloadNullBytes = 2"
definition payloadMaxSize :: nat where "payloadMaxSize = 2048"

text \<open>The struct \<open>payload\<close> without its regular expressions, which the codec does not read.\<close>

record payload =
  payloadID :: int32
  payloadType :: int32
  payloadBody :: "byte list"

definition getSize :: "payload \<Rightarrow> int32" where
  "getSize p = of_nat (length (payloadBody p) + (payloadIDBytes + payloadTypeBytes + payloadNullBytes))"

text \<open>
  \<open>buildPacketFromPayload\<close>: always little-endian, two null bytes, and the check
  \<open>buffer.Len() >= payloadMaxSize\<close> on the finished buffer.
\<close>

definition buildPacketFromPayload :: "payload \<Rightarrow> error + byte list" where
  "buildPacketFromPayload p =
     (let buffer = [];
          buffer = buffer @ PutUint32 Little (getSize p);
          buffer = buffer @ PutUint32 Little (payloadID p);
          buffer = buffer @ PutUint32 Little (payloadType p);
          buffer = buffer @ payloadBody p;
          buffer = buffer @ [0, 0]
      in if length buffer \<ge> payloadMaxSize then Inl ErrPayloadTooLarge else Inr buffer)"

text \<open>
  \<open>buildPayloadFromPacket\<close>: as \<open>DecodeClientPacket\<close>, little-endian, with the check
  \<open>packetBodyLen < 1\<close> before the allocation.
\<close>

definition buildPayloadFromPacket :: "Reader \<Rightarrow> payload outcome \<times> Reader" where
  "buildPayloadFromPacket socket =
     (case ReadInt32 Little socket of
        (Inl e, r1) \<Rightarrow> (Err e, r1)
      | (Inr packetSize, r1) \<Rightarrow>
     (case ReadInt32 Little r1 of
        (Inl e, r2) \<Rightarrow> (Err e, r2)
      | (Inr packetID, r2) \<Rightarrow>
     (case ReadInt32 Little r2 of
        (Inl e, r3) \<Rightarrow> (Err e, r3)
      | (Inr packetType, r3) \<Rightarrow>
     (let packetBodyLen = packetSize - of_nat (payloadIDBytes + payloadTypeBytes) in
      if sint packetBodyLen < 1 then (Err ErrEmptyBody, r3)
      else
     (case ReadFull r3 (nat (sint packetBodyLen)) of
        (Inl e, r4) \<Rightarrow> (Err e, r4)
      | (Inr packetBody, r4) \<Rightarrow>
          (let packetBody = Trim packetBody 0;
               packetBody = Trim packetBody 10
           in (Ok \<lparr>payloadID = packetID, payloadType = packetType, payloadBody = packetBody\<rparr>,
               r4)))))))"

subsection \<open>The single-socket client: data\<close>

text \<open>
  A \<open>*net.TCPConn\<close>: what the peer will deliver, what has been written, and whether
  the socket has been closed. While it is open a write succeeds and a deadline can be set.
\<close>

record Conn =
  incoming :: Reader
  written :: "byte list"
  closed :: bool

definition SetDeadline :: "Conn \<Rightarrow> error option" where
  "SetDeadline k = (if closed k then Some ErrNetClosed else None)"

definition conn_Write :: "Conn \<Rightarrow> byte list \<Rightarrow> error option \<times> Conn" where
  "conn_Write k data =
     (if closed k then (Some ErrNetClosed, k) else (None, k\<lparr>written := written k @ data\<rparr>))"

text \<open>\<open>make(chan packet.Packet)\<close>: an unbuffered channel, which holds nothing.\<close>

datatype Mailbox = Mailbox

text \<open>The writer and the reader goroutine: not yet spawned, in its loop, or returned.\<close>

datatype fiber = NotStarted | Running | Exited

text \<open>
  The effects of the client on its channels, its socket and the user's callbacks, in
  program order: a completed send on \<open>writeQueue\<close>, an insertion into \<open>readQueue\<close>,
  \<open>close\<close> and \<open>delete\<close> of a mailbox, \<open>close(c.terminate)\<close>, \<open>c.conn.Close()\<close>, a call of
  \<open>DisconnectHandler(err, expected)\<close>, a call of \<open>BroadcastHandler(body)\<close>, and a packet
  offered on the reader's \<open>readChan\<close>. Log lines are left out.
\<close>

datatype event =
    Handoff ClientPacket
  | MailboxCreated int32
  | MailboxClosed int32
  | MailboxDeleted int32
  | TerminateClosed
  | ConnClosed
  | DisconnectHandlerCalled "error option" bool
  | BroadcastHandlerCalled "byte list"
  | MailboxOffered ClientPacket

text \<open>
  \<open>Config\<close>, as \<open>NewClient\<close> leaves it: a nil \<open>EndianMode\<close> has become \<open>endian.Little\<close> and
  a nil \<open>BroadcastChecker\<close> the function that returns \<open>false\<close>. The two handlers are
  present or nil. Host, port and the three timeouts are not read by the model: the
  outcome of the dial and of every \<open>select\<close> is an argument of the operation.
\<close>

record Config =
  Password :: "byte list"
  EndianMode :: Mode
  BroadcastChecker :: "ClientPacket \<Rightarrow> bool"
  hasBroadcastHandler :: bool
  hasDisconnectHandler :: bool
  RestrictedPacketIDs :: "int32 list"

text \<open>
  The checker \<open>NewClient\<close> installs for a nil \<open>BroadcastChecker\<close>, and the preset of
  package \<open>presets\<close> with its table of restricted IDs.
\<close>

definition defaultBroadcastChecker :: "ClientPacket \<Rightarrow> bool" where
  "defaultBroadcastChecker p = False"

definition MordhauRestrictedPacketIDs :: "int32 list" where
  "MordhauRestrictedPacketIDs =
     [54321, 54322, 54323, 54324, 54325, 54326, 54327, 54328, 54329, 54330]"

fun MordhauBroadcastCheckerLoop :: "int32 list \<Rightarrow> ClientPacket \<Rightarrow> bool" where
  "MordhauBroadcastCheckerLoop [] p = False"
| "MordhauBroadcastCheckerLoop (v # vs) p =
     (if v = ID p then True else MordhauBroadcastCheckerLoop vs p)"

definition MordhauBroadcastChecker :: "ClientPacket \<Rightarrow> bool" where
  "MordhauBroadcastChecker p = MordhauBroadcastCheckerLoop MordhauRestrictedPacketIDs p"

text \<open>
  \<open>Client\<close> embeds \<open>*Config\<close>. \<open>terminateClosed\<close> is the state of the channel
  \<open>terminate\<close>; \<open>writer\<close> and \<open>reader\<close> are the two goroutines of \<open>Connect\<close>.
\<close>

record Client = Config +
  conn :: "Conn option"
  terminateClosed :: bool
  writer :: fiber
  reader :: fiber
  readQueue :: "int32 \<rightharpoonup> Mailbox"
  trace :: "event list"

definition NewClient :: "Config \<Rightarrow> Client" where
  "NewClient config =
     \<lparr>Password = Password config, EndianMode = EndianMode config,
      BroadcastChecker = BroadcastChecker config,
      hasBroadcastHandler = hasBroadcastHandler config,
      hasDisconnectHandler = hasDisconnectHandler config,
      RestrictedPacketIDs = RestrictedPacketIDs config,
      conn = None, terminateClosed = False, writer = NotStarted, reader = NotStarted,
      readQueue = Map.empty, trace = []\<rparr>"

definition newClientPacket ::
  "Client \<Rightarrow> int32 \<Rightarrow> byte list \<Rightarrow> int32 \<Rightarrow> (ClientPacket \<times> int32) option" where
  "newClientPacket c t b nextClientPacketID =
     NewClientPacket (EndianMode c) t b (RestrictedPacketIDs c) nextClientPacketID"

subsection \<open>Transport\<close>

text \<open>
  The method \<open>write\<close> (\<open>write_conn\<close> here, \<open>write\<close> being an Isar command):
  \<open>c.conn.Write(data)\<close>; on a nil \<open>c.conn\<close> the call dereferences nil.
\<close>

definition write_conn :: "Client \<Rightarrow> byte list \<Rightarrow> unit outcome \<times> Client" where
  "write_conn c data =
     (case conn c of
        None \<Rightarrow> (Panic NilPointerDereference, c)
      | Some k \<Rightarrow>
          (case conn_Write k data of
             (Some e, k') \<Rightarrow> (Err e, c\<lparr>conn := Some k'\<rparr>)
           | (None, k') \<Rightarrow> (Ok (), c\<lparr>conn := Some k'\<rparr>)))"

definition sendPacket :: "Client \<Rightarrow> ClientPacket \<Rightarrow> unit outcome \<times> Client" where
  "sendPacket c p =
     (case Build p of
        Inl e \<Rightarrow> (Err (Wrapped e ''could not build packet''), c)
      | Inr out \<Rightarrow>
          (case write_conn c out of
             (Err e, c') \<Rightarrow> (Err (Wrapped e ''could not send authentication packet''), c')
           | (Panic x, c') \<Rightarrow> (Panic x, c')
           | (Ok u, c') \<Rightarrow> (Ok (), c')))"

text \<open>
  \<open>strings.HasSuffix(err.Error(), "use of closed network connection")\<close>: the message of a
  wrapped error ends with the message of its cause.
\<close>

definition closedConnection :: "error \<Rightarrow> bool" where
  "closedConnection e = (Cause e = ErrNetClosed)"

text \<open>
  \<open>readPacketTimeout\<close> and \<open>readPacket\<close> differ in the deadline they set, which decides
  what the socket reports when no byte arrives; the stream has that error in \<open>atEnd\<close>.
  The bytes a \<open>bufio.Reader\<close> may read ahead are not modelled.
\<close>

definition readPacketTimeout :: "Client \<Rightarrow> ClientPacket outcome \<times> Client" where
  "readPacketTimeout c =
     (case conn c of
        None \<Rightarrow> (Err ErrNotConnected, c)
      | Some k \<Rightarrow>
          (case SetDeadline k of
             Some e \<Rightarrow>
               (if closedConnection e then (Err ErrNotConnected, c)
                else (Err (Wrapped e ''could not set connection deadline''), c))
           | None \<Rightarrow>
               (case DecodeClientPacket (EndianMode c) (incoming k) of
                  (Err e, r) \<Rightarrow>
                    (if closedConnection e then (Err ErrNotConnected, c\<lparr>conn := Some (k\<lparr>incoming := r\<rparr>)\<rparr>)
                     else (Err (Wrapped e ''could not read packet''), c\<lparr>conn := Some (k\<lparr>incoming := r\<rparr>)\<rparr>))
                | (Panic x, r) \<Rightarrow> (Panic x, c\<lparr>conn := Some (k\<lparr>incoming := r\<rparr>)\<rparr>)
                | (Ok res, r) \<Rightarrow> (Ok res, c\<lparr>conn := Some (k\<lparr>incoming := r\<rparr>)\<rparr>))))"

definition readPacket :: "Client \<Rightarrow> ClientPacket outcome \<times> Client" where
  "readPacket c = readPacketTimeout c"

subsection \<open>Authentication and \<open>Connect\<close>\<close>

text \<open>A returned \<open>error\<close>: nil is the successful return.\<close>

fun returned :: "error option \<Rightarrow> unit outcome" where
  "returned None = Ok ()"
| "returned (Some e) = Err e"

text \<open>
  \<open>authenticate\<close>. After \<open>res, err := c.readPacketTimeout()\<close> and the return on
  \<open>err != nil\<close>, the variable \<open>err\<close> is nil; the type check returns
  \<open>errors.Wrap(err, ...)\<close> of that variable, the id check wraps \<open>errs.ErrAuthentication\<close>.
  The result is \<open>None\<close> when the ID allocator does not return.
\<close>

definition authenticate :: "Client \<Rightarrow> int32 \<Rightarrow> (unit outcome \<times> Client \<times> int32) option" where
  "authenticate c nextClientPacketID =
     (case newClientPacket c TypeAuth (Password c) nextClientPacketID of
        None \<Rightarrow> None
      | Some (p, n) \<Rightarrow> Some
          (case sendPacket c p of
             (Err e, c1) \<Rightarrow> (Err (Wrapped e ''could not send packet''), c1, n)
           | (Panic x, c1) \<Rightarrow> (Panic x, c1, n)
           | (Ok u, c1) \<Rightarrow>
               (case readPacketTimeout c1 of
                  (Err e, c2) \<Rightarrow> (Err (Wrapped e ''could not get auth response''), c2, n)
                | (Panic x, c2) \<Rightarrow> (Panic x, c2, n)
                | (Ok res, c2) \<Rightarrow>
                    (let err = None in
                     if Type res \<noteq> TypeAuthRes then
                       (returned (Wrap err ''packet was not of the type auth response''), c2, n)
                     else if ID res = AuthFailedID then
                       (returned (Wrap (Some ErrAuthentication) ''authentication failed''), c2, n)
                     else (Ok (), c2, n)))))"

text \<open>
  \<open>Connect\<close>, given what \<open>net.DialTimeout\<close> returns. The assertion
  \<open>conn.(*net.TCPConn)\<close> holds for every connection dialled on "tcp". After a
  successful \<open>authenticate\<close> the two goroutines are spawned.
\<close>

definition Connect ::
  "Client \<Rightarrow> error + Conn \<Rightarrow> int32 \<Rightarrow> (unit outcome \<times> Client \<times> int32) option" where
  "Connect c dial nextClientPacketID =
     (case dial of
        Inl e \<Rightarrow> Some (Err (Wrapped e ''tcp dial failure''), c, nextClientPacketID)
      | Inr k \<Rightarrow>
          (let c = c\<lparr>conn := Some k\<rparr> in
           case SetDeadline k of
             Some e \<Rightarrow>
               Some (Err (Wrapped e ''could not set tcp connection deadline''), c, nextClientPacketID)
           | None \<Rightarrow>
               (case authenticate c nextClientPacketID of
                  None \<Rightarrow> None
                | Some (Ok u, c', n) \<Rightarrow> Some (Ok (), c'\<lparr>writer := Running, reader := Running\<rparr>, n)
                | Some (Err e, c', n) \<Rightarrow> Some (Err e, c', n)
                | Some (Panic x, c', n) \<Rightarrow> Some (Panic x, c', n))))"

subsection \<open>Shutdown\<close>

text \<open>
  \<open>disconnect\<close>: \<open>close(c.terminate)\<close>, which panics on a closed channel;
  \<open>c.conn.Close()\<close>, which dereferences \<open>c.conn\<close>; \<open>c.conn = nil\<close>; then the handler, if
  set, with \<open>(err, err == nil)\<close>.
\<close>

definition disconnect :: "Client \<Rightarrow> error option \<Rightarrow> unit outcome \<times> Client" where
  "disconnect c err =
     (if terminateClosed c then (Panic CloseOfClosedChannel, c)
      else
        (let c = c\<lparr>terminateClosed := True, trace := trace c @ [TerminateClosed]\<rparr> in
         case conn c of
           None \<Rightarrow> (Panic NilPointerDereference, c)
         | Some k \<Rightarrow>
             (let c = c\<lparr>conn := None, trace := trace c @ [ConnClosed]\<rparr>;
                  c = (if hasDisconnectHandler c
                       then c\<lparr>trace := trace c @ [DisconnectHandlerCalled err (err = None)]\<rparr>
                       else c)
              in (Ok (), c))))"

definition Close :: "Client \<Rightarrow> unit outcome \<times> Client" where
  "Close c =
     (if conn c = None then (Err ErrNotConnected, c)
      else (case disconnect c None of
              (Panic x, c') \<Rightarrow> (Panic x, c')
            | (r, c') \<Rightarrow> (Ok (), c')))"

subsection \<open>Commands\<close>

text \<open>
  \<open>enqueuePacket\<close>: a \<open>select\<close> between the send on the unbuffered \<open>writeQueue\<close> and
  \<open>time.After(c.QueueWriteTimeout)\<close>. The send completes only when a receiver takes the
  packet, and the only receiver is the loop of \<open>startWriter\<close>; \<open>received\<close> says whether
  it did so before the timer fired. In the send case the mailbox is inserted after the
  send.
\<close>

definition enqueuePacket :: "Client \<Rightarrow> ClientPacket \<Rightarrow> bool \<Rightarrow> bool \<Rightarrow> error option \<times> Client" where
  "enqueuePacket c p createMailbox received =
     (if writer c = Running \<and> received then
        (let c = c\<lparr>trace := trace c @ [Handoff p]\<rparr>;
             c = (if createMailbox
                  then c\<lparr>readQueue := (readQueue c)(ID p \<mapsto> Mailbox),
                         trace := trace c @ [MailboxCreated (ID p)]\<rparr>
                  else c)
         in (None, c))
      else (Wrap (Some ErrQueueTimeout) ''packet queue operation timed out'', c))"

text \<open>
  \<open>getResponse\<close>: a \<open>select\<close> between the receive on the mailbox and
  \<open>time.After(c.QueueReadTimeout)\<close>; \<open>delivered\<close> is the packet the reader put into the
  mailbox before the timer fired, if any (a receive on the nil channel of a missing
  entry never completes). The deferred function closes the channel, which panics on
  the nil channel of a missing entry, and deletes the entry.
\<close>

definition getResponse ::
  "Client \<Rightarrow> int32 \<Rightarrow> ClientPacket option \<Rightarrow> ClientPacket outcome \<times> Client" where
  "getResponse c packetID delivered =
     (let result =
            (case (readQueue c packetID, delivered) of
               (Some mb, Some p) \<Rightarrow> Ok p
             | _ \<Rightarrow> Err (Wrapped ErrReadTimeout ''mailbox read operation timed out''))
      in case readQueue c packetID of
           None \<Rightarrow> (Panic CloseOfNilChannel, c)
         | Some mb \<Rightarrow>
             (result, c\<lparr>readQueue := (readQueue c)(packetID := None),
                        trace := trace c @ [MailboxClosed packetID, MailboxDeleted packetID]\<rparr>))"

text \<open>
  \<open>ExecCommand\<close>, given the outcome of the two \<open>select\<close>s. The result is \<open>None\<close> when
  the ID allocator does not return.
\<close>

definition ExecCommand ::
  "Client \<Rightarrow> int32 \<Rightarrow> byte list \<Rightarrow> bool \<Rightarrow> ClientPacket option
     \<Rightarrow> (byte list outcome \<times> Client \<times> int32) option" where
  "ExecCommand c nextClientPacketID command received delivered =
     (case newClientPacket c TypeCommand command nextClientPacketID of
        None \<Rightarrow> None
      | Some (p, n) \<Rightarrow> Some
          (case enqueuePacket c p True received of
             (Some e, c1) \<Rightarrow> (Err (Wrapped e ''could not enqueue command packet''), c1, n)
           | (None, c1) \<Rightarrow>
               (case getResponse c1 (ID p) delivered of
                  (Err e, c2) \<Rightarrow> (Err (Wrapped e ''could not get command response''), c2, n)
                | (Panic x, c2) \<Rightarrow> (Panic x, c2, n)
                | (Ok res, c2) \<Rightarrow>
                    (let b = Body res;
                         b = butlast b
                     in (Ok b, c2, n)))))"

definition ExecCommandNoResponse ::
  "Client \<Rightarrow> int32 \<Rightarrow> byte list \<Rightarrow> bool \<Rightarrow> (unit outcome \<times> Client \<times> int32) option" where
  "ExecCommandNoResponse c nextClientPacketID command received =
     (case newClientPacket c TypeCommand command nextClientPacketID of
        None \<Rightarrow> None
      | Some (p, n) \<Rightarrow> Some
          (case enqueuePacket c p False received of
             (Some e, c1) \<Rightarrow> (Err (Wrapped e ''could not enqueue command packet''), c1, n)
           | (None, c1) \<Rightarrow> (Ok (), c1, n)))"

subsection \<open>The writer goroutine\<close>

text \<open>The writer's \<open>select\<close> taking \<open>case <-c.terminate\<close>: the goroutine returns.\<close>

definition writerTerminates :: "Client \<Rightarrow> Client" where
  "writerTerminates c =
     (if writer c = Running \<and> terminateClosed c then c\<lparr>writer := Exited\<rparr> else c)"

subsection \<open>Traces and runs of a session\<close>

text \<open>The events a call added to the trace.\<close>

definition callTrace :: "Client \<Rightarrow> Client \<Rightarrow> event list" where
  "callTrace c c' = drop (length (trace c)) (trace c')"

text \<open>\<open>before a b es\<close>: \<open>a\<close> occurs in \<open>es\<close>, and \<open>b\<close> occurs after its first occurrence.\<close>

fun before :: "event \<Rightarrow> event \<Rightarrow> event list \<Rightarrow> bool" where
  "before a b [] = False"
| "before a b (e # es) = (if e = a then b \<in> set es else before a b es)"

text \<open>The events of one \<open>ExecCommand\<close> call.\<close>

definition execTrace ::
  "Client \<Rightarrow> int32 \<Rightarrow> byte list \<Rightarrow> bool \<Rightarrow> ClientPacket option \<Rightarrow> event list option" where
  "execTrace c nextClientPacketID command received delivered =
     (case ExecCommand c nextClientPacketID command received delivered of
        None \<Rightarrow> None
      | Some (r, c', n) \<Rightarrow> Some (callTrace c c'))"

fun isDisconnectHandlerCalled :: "event \<Rightarrow> bool" where
  "isDisconnectHandlerCalled (DisconnectHandlerCalled err expected) = True"
| "isDisconnectHandlerCalled e = False"

definition sinkCalls :: "event list \<Rightarrow> nat" where
  "sinkCalls es = length (filter isDisconnectHandlerCalled es)"

definition terminateFirings :: "event list \<Rightarrow> nat" where
  "terminateFirings es = count_list es TerminateClosed"

subsection \<open>Shutdown and the reader, statement by statement\<close>

text \<open>
  \<open>Close\<close> and the reader's loop run in different goroutines and hold no lock, so
  another goroutine can run between any two of their statements. A goroutine is
  therefore a position in the code, and one step executes one statement on the shared
  \<open>Client\<close>. The positions: the guard \<open>if c.conn == nil\<close> of \<open>Close\<close>; in \<open>readPacket\<close> the
  guard \<open>if c.conn == nil\<close>, the call \<open>c.conn.SetDeadline\<close> and the decode from
  \<open>c.conn\<close>; in \<open>disconnect(err)\<close> the statements \<open>close(c.terminate)\<close>,
  \<open>c.conn.Close()\<close>, \<open>c.conn = nil\<close> and the call of the handler; and the end of the
  goroutine, with what it returned or the panic that stopped it.
\<close>

datatype caller = UserClose | Reader

datatype pc =
    CloseGuard
  | ReadGuard
  | ReadDeadline
  | ReadDecode
  | FireTerminate "error option"
  | CloseConn "error option"
  | NilConn "error option"
  | CallHandler "error option"
  | Finished "unit outcome"

text \<open>
  The \<open>switch errors.Cause(err)\<close> of the reader's loop: \<open>disconnect(err)\<close> for \<open>io.EOF\<close>
  and \<open>io.ErrClosedPipe\<close>, the next round for everything else.
\<close>

definition readerSwitch :: "error \<Rightarrow> pc" where
  "readerSwitch err =
     (if Cause err = ErrNotConnected then ReadGuard
      else if Cause err = EOF then FireTerminate (Some err)
      else if Cause err = ErrClosedPipe then FireTerminate (Some err)
      else ReadGuard)"

text \<open>
  What the reader does with a packet: a broadcast goes to the handler, if set, without
  its null terminator; any other packet is offered on \<open>readChan\<close>.
\<close>

definition dispatch :: "Client \<Rightarrow> ClientPacket \<Rightarrow> Client" where
  "dispatch c p =
     (if BroadcastChecker c p then
        (if hasBroadcastHandler c
         then c\<lparr>trace := trace c @ [BroadcastHandlerCalled (butlast (Body p))]\<rparr>
         else c)
      else c\<lparr>trace := trace c @ [MailboxOffered p]\<rparr>)"

text \<open>
  One statement. After \<open>disconnect\<close> the user's \<open>Close\<close> returns nil and the reader
  goes on with its loop. A method call on a nil \<open>c.conn\<close> dereferences nil, and
  \<open>close\<close> of the closed channel panics.
\<close>

fun threadStep :: "caller \<Rightarrow> pc \<Rightarrow> Client \<Rightarrow> pc \<times> Client" where
  "threadStep who CloseGuard c =
     (if conn c = None then (Finished (Err ErrNotConnected), c) else (FireTerminate None, c))"
| "threadStep who ReadGuard c =
     (if conn c = None then (readerSwitch ErrNotConnected, c) else (ReadDeadline, c))"
| "threadStep who ReadDeadline c =
     (case conn c of
        None \<Rightarrow> (Finished (Panic NilPointerDereference), c)
      | Some k \<Rightarrow>
          (case SetDeadline k of
             Some e \<Rightarrow>
               (if closedConnection e then (readerSwitch ErrNotConnected, c)
                else (readerSwitch (Wrapped e ''could not set connection deadline''), c))
           | None \<Rightarrow> (ReadDecode, c)))"
| "threadStep who ReadDecode c =
     (case conn c of
        None \<Rightarrow> (Finished (Panic NilPointerDereference), c)
      | Some k \<Rightarrow>
          (case DecodeClientPacket (EndianMode c) (incoming k) of
             (Err e, r) \<Rightarrow>
               (if closedConnection e
                then (readerSwitch ErrNotConnected, c\<lparr>conn := Some (k\<lparr>incoming := r\<rparr>)\<rparr>)
                else (readerSwitch (Wrapped e ''could not read packet''),
                      c\<lparr>conn := Some (k\<lparr>incoming := r\<rparr>)\<rparr>))
           | (Panic x, r) \<Rightarrow> (Finished (Panic x), c\<lparr>conn := Some (k\<lparr>incoming := r\<rparr>)\<rparr>)
           | (Ok p, r) \<Rightarrow> (ReadGuard, dispatch (c\<lparr>conn := Some (k\<lparr>incoming := r\<rparr>)\<rparr>) p)))"
| "threadStep who (FireTerminate err) c =
     (if terminateClosed c then (Finished (Panic CloseOfClosedChannel), c)
      else (CloseConn err, c\<lparr>terminateClosed := True, trace := trace c @ [TerminateClosed]\<rparr>))"
| "threadStep who (CloseConn err) c =
     (case conn c of
        None \<Rightarrow> (Finished (Panic NilPointerDereference), c)
      | Some k \<Rightarrow> (NilConn err, c\<lparr>trace := trace c @ [ConnClosed]\<rparr>))"
| "threadStep who (NilConn err) c = (CallHandler err, c\<lparr>conn := None\<rparr>)"
| "threadStep who (CallHandler err) c =
     (case who of UserClose \<Rightarrow> Finished (Ok ()) | Reader \<Rightarrow> ReadGuard,
      if hasDisconnectHandler c
      then c\<lparr>trace := trace c @ [DisconnectHandlerCalled err (err = None)]\<rparr>
      else c)"
| "threadStep who (Finished r) c = (Finished r, c)"

text \<open>An uninterrupted goroutine: \<open>n\<close> statements in a row.\<close>

fun runThread :: "nat \<Rightarrow> caller \<Rightarrow> pc \<Rightarrow> Client \<Rightarrow> pc \<times> Client" where
  "runThread 0 who p c = (p, c)"
| "runThread (Suc n) who p c = (case threadStep who p c of (p', c') \<Rightarrow> runThread n who p' c')"




text \<open>
  The positions inside \<open>disconnect\<close> after \<open>close(c.terminate)\<close> has succeeded, and how
  many goroutines are at one of them.
\<close>

fun pastFiring :: "pc \<Rightarrow> bool" where
  "pastFiring (CloseConn err) = True"
| "pastFiring (NilConn err) = True"
| "pastFiring (CallHandler err) = True"
| "pastFiring p = False"

definition firedThreads :: "(caller \<times> pc) list \<Rightarrow> nat" where
  "firedThreads ts = length (filter (\<lambda>t. pastFiring (snd t)) ts)"

subsection \<open>The trimming as the specification words it\<close>

text \<open>
  "Trim trailing null bytes then trailing newline bytes from the body": only the end
  of the body is touched. This definition follows the specification, not the code; it
  is what \<open>DecodeClientPacket\<close> is compared with.
\<close>

definition specTrimTrailing :: "byte list \<Rightarrow> byte list" where
  "specTrimTrailing b = trimRightByte (trimRightByte b 0) 10"

section \<open>Properties\<close>

subsection \<open>Byte order and readers\<close>

text \<open>Four bytes written in either order are read back as the same \<open>int32\<close>.\<close>

lemma bytes_roundtrip:
  "ucast (ucast (v::32 word) :: 8 word) OR push_bit 8 (ucast (ucast (drop_bit 8 v) :: 8 word))
     OR push_bit 16 (ucast (ucast (drop_bit 16 v) :: 8 word))
     OR push_bit 24 (ucast (ucast (drop_bit 24 v) :: 8 word)) = v" (is "?l = v")
proof (rule bit_word_eqI)
  fix n assume n: "n < LENGTH(32)"
  then consider "n < 8" | "8 \<le> n" "n < 16" | "16 \<le> n" "n < 24" | "24 \<le> n" "n < 32"
    by fastforce
  then show "bit ?l n = bit v n"
  proof cases
    case 1 then show ?thesis by (simp add: bit_or_iff bit_ucast_iff bit_push_bit_iff bit_drop_bit_eq)
  next
    case 2
    then have "n - 8 < 8" "n - 8 < 32" "\<not> n < 8" "\<not> 16 \<le> n" by arith+
    with 2 show ?thesis by (simp add: bit_or_iff bit_ucast_iff bit_push_bit_iff bit_drop_bit_eq)
  next
    case 3
    then have "n - 16 < 8" "n - 16 < 32" "\<not> n < 8" "\<not> n - 8 < 8" "\<not> 24 \<le> n" by arith+
    with 3 show ?thesis by (simp add: bit_or_iff bit_ucast_iff bit_push_bit_iff bit_drop_bit_eq)
  next
    case 4
    then have "n - 24 < 8" "n - 24 < 32" "\<not> n < 8" "\<not> n - 8 < 8" "\<not> n - 16 < 8" by arith+
    with 4 show ?thesis by (simp add: bit_or_iff bit_ucast_iff bit_push_bit_iff bit_drop_bit_eq)
  qed
qed

lemma length_PutUint32: "length (PutUint32 order v) = 4"
  by (cases order) (simp_all add: PutUint32_def)

lemma Uint32_PutUint32:
  "Uint32 order (PutUint32 order v ! 0) (PutUint32 order v ! 1)
     (PutUint32 order v ! 2) (PutUint32 order v ! 3) = v"
  by (cases order) (simp_all add: PutUint32_def Uint32_def bytes_roundtrip)

lemma ReadFull_prefix:
  "pending r = bs @ rest \<Longrightarrow> ReadFull r (length bs) = (Inr bs, r\<lparr>pending := rest\<rparr>)"
  by (simp add: ReadFull_def)

lemma ReadInt32_PutUint32:
  assumes "pending r = PutUint32 order v @ rest"
  shows "ReadInt32 order r = (Inr v, r\<lparr>pending := rest\<rparr>)"
proof -
  have "ReadFull r 4 = (Inr (PutUint32 order v), r\<lparr>pending := rest\<rparr>)"
    using ReadFull_prefix [OF assms] by (simp add: length_PutUint32)
  then show ?thesis
    using Uint32_PutUint32 [of order v] by (simp add: ReadInt32_def)
qed

lemma DecodeClientPacket_frame:
  assumes frame: "pending r = PutUint32 order sz @ PutUint32 order i @ PutUint32 order t @ raw @ rest"
    and len: "sint (sz - 8) = int (length raw)"
  shows "DecodeClientPacket order r =
           (Ok \<lparr>mode = order, pType = t, body = Trim (Trim raw 0) 10, idf = i\<rparr>,
            r\<lparr>pending := rest\<rparr>)"
proof -
  let ?r1 = "r\<lparr>pending := PutUint32 order i @ PutUint32 order t @ raw @ rest\<rparr>"
  let ?r2 = "r\<lparr>pending := PutUint32 order t @ raw @ rest\<rparr>"
  let ?r3 = "r\<lparr>pending := raw @ rest\<rparr>"
  have 1: "ReadInt32 order r = (Inr sz, ?r1)"
    using frame by (rule ReadInt32_PutUint32)
  have 2: "ReadInt32 order ?r1 = (Inr i, ?r2)"
    using ReadInt32_PutUint32 [of ?r1 order i "PutUint32 order t @ raw @ rest"] by simp
  have 3: "ReadInt32 order ?r2 = (Inr t, ?r3)"
    using ReadInt32_PutUint32 [of ?r2 order t "raw @ rest"] by simp
  have 4: "ReadFull ?r3 (length raw) = (Inr raw, r\<lparr>pending := rest\<rparr>)"
    using ReadFull_prefix [of ?r3 raw rest] by simp
  have 5: "sz - 4 - 4 = sz - 8" by simp
  show ?thesis
    unfolding DecodeClientPacket_def by (simp add: 1 2 3 4 5 len Let_def)
qed

subsection \<open>The encoder\<close>

lemma Build_eq:
  "Build p = Inr (PutUint32 (mode p) (Size p) @ PutUint32 (mode p) (idf p) @
                  PutUint32 (mode p) (pType p) @ body p @ [0, 0])"
  by (simp add: Build_def Let_def ID_def Type_def Body_def)

lemma Size_eq: "Size p = of_nat (length (body p) + 10)"
  by (simp add: Size_def Body_def int32Bytes_def endPadBytes_def)

lemma length_Build: "map_sum id length (Build p) = Inr (length (body p) + 14)"
  by (simp add: Build_eq length_PutUint32)

lemma trimRightByte_append_replicate:
  "c \<notin> set s \<Longrightarrow> trimRightByte (s @ replicate n c) c = s"
proof -
  assume c: "c \<notin> set s"
  have "dropWhile (\<lambda>b. b = c) (replicate n c @ rev s) = dropWhile (\<lambda>b. b = c) (rev s)"
    by (induction n) simp_all
  also have "\<dots> = rev s"
  proof (cases "rev s")
    case Nil
    then show ?thesis by simp
  next
    case (Cons a as)
    then have "a \<in> set s" by (metis list.set_intros(1) set_rev)
    with c have "a \<noteq> c" by blast
    with Cons show ?thesis by simp
  qed
  finally show ?thesis by (simp add: trimRightByte_def)
qed

lemma trimLeftByte_notin: "c \<notin> set s \<Longrightarrow> trimLeftByte s c = s"
  by (cases s) (auto simp: trimLeftByte_def)

lemma Trim_append_replicate: "c \<notin> set s \<Longrightarrow> Trim (s @ replicate n c) c = s"
  by (simp add: Trim_def trimRightByte_append_replicate trimLeftByte_notin)

lemma sint_Size_minus_8:
  assumes "length (body p) + 10 < 2 ^ 31"
  shows "sint (Size p - 8) = int (length (body p)) + 2"
proof -
  have "Size p - 8 = (of_nat (length (body p) + 2) :: int32)"
    by (simp add: Size_eq)
  moreover have "sint (of_nat (length (body p) + 2) :: int32) = int (length (body p) + 2)"
    using assms by (simp only: signed_of_nat) (simp add: signed_take_bit_int_eq_self)
  ultimately show ?thesis by simp
qed

subsection \<open>Round trip\<close>

lemma Build_frame:
  "Build p = Inr bs \<Longrightarrow>
   pending (NewReader bs) =
     PutUint32 (mode p) (Size p) @ PutUint32 (mode p) (idf p) @ PutUint32 (mode p) (pType p) @
     (body p @ [0, 0]) @ []"
  by (simp add: Build_eq NewReader_def)

lemma decode_Build:
  assumes len: "length (body p) + 10 < 2 ^ 31" and nul: "0 \<notin> set (body p)"
    and bs: "Build p = Inr bs"
  shows "fst (DecodeClientPacket (mode p) (NewReader bs)) =
           Ok \<lparr>mode = mode p, pType = pType p, body = Trim (body p) 10, idf = idf p\<rparr>"
proof -
  have "sint (Size p - 8) = int (length (body p @ [0, 0]))"
    using sint_Size_minus_8 [OF len] by simp
  then have "DecodeClientPacket (mode p) (NewReader bs) =
      (Ok \<lparr>mode = mode p, pType = pType p, body = Trim (Trim (body p @ [0, 0]) 0) 10, idf = idf p\<rparr>,
       (NewReader bs)\<lparr>pending := []\<rparr>)"
    by (rule DecodeClientPacket_frame [OF Build_frame [OF bs]])
  moreover have "Trim (body p @ [0, 0]) 0 = body p"
    using Trim_append_replicate [OF nul, of 2] by (simp add: numeral_2_eq_2)
  ultimately show ?thesis by simp
qed

text \<open>
  C6 (as amended). For every endianness mode, type, id and body with
  \<open>len(body) + 10 < 2048\<close> and no null byte in the body, \<open>Build\<close> succeeds, and
  \<open>DecodeClientPacket\<close> on its bytes returns a packet with the same mode, type and id
  whose body is the original body without the newline bytes at its two ends.
\<close>

theorem C6_roundtrip_both_ends_trimmed:
  assumes "length (body p) + 10 < 2048" and "0 \<notin> set (body p)"
  shows "\<exists>bs. Build p = Inr bs \<and>
           fst (DecodeClientPacket (mode p) (NewReader bs)) =
             Ok \<lparr>mode = mode p, pType = pType p, body = Trim (body p) 10, idf = idf p\<rparr>"
proof -
  obtain bs where bs: "Build p = Inr bs" by (simp add: Build_eq)
  from assms(1) have "length (body p) + 10 < 2 ^ 31" by simp
  from decode_Build [OF this assms(2) bs] bs show ?thesis by blast
qed

theorem C6_roundtrip_witness:
  "length (body \<lparr>mode = Big, pType = 2, body = [72, 105, 10], idf = 7\<rparr>) + 10 < 2048 \<and>
   0 \<notin> set (body \<lparr>mode = Big, pType = 2, body = [72, 105, 10], idf = 7\<rparr>) \<and>
   (\<exists>bs. Build \<lparr>mode = Big, pType = 2, body = [72, 105, 10], idf = 7\<rparr> = Inr bs \<and>
      fst (DecodeClientPacket Big (NewReader bs)) =
        Ok \<lparr>mode = Big, pType = 2, body = [72, 105], idf = 7\<rparr>)"
  using C6_roundtrip_both_ends_trimmed [of "\<lparr>mode = Big, pType = 2, body = [72, 105, 10], idf = 7\<rparr>"]
  by (simp add: Trim_def trimLeftByte_def trimRightByte_def)

text \<open>
  C6 as the specification states it fails: a body that begins with a newline comes
  back without it, which the documented trimming of the end of the body does not
  account for.
\<close>

theorem C6_counterexample:
  "Build \<lparr>mode = Little, pType = 2, body = [10, 97], idf = 1\<rparr> =
     Inr [12, 0, 0, 0, 1, 0, 0, 0, 2, 0, 0, 0, 10, 97, 0, 0] \<and>
   fst (DecodeClientPacket Little (NewReader [12, 0, 0, 0, 1, 0, 0, 0, 2, 0, 0, 0, 10, 97, 0, 0])) =
     Ok \<lparr>mode = Little, pType = 2, body = [97], idf = 1\<rparr> \<and>
   fst (DecodeClientPacket Little (NewReader [12, 0, 0, 0, 1, 0, 0, 0, 2, 0, 0, 0, 10, 97, 0, 0])) \<noteq>
     Ok \<lparr>mode = Little, pType = 2, body = specTrimTrailing [10, 97], idf = 1\<rparr>"
  by (simp add: Build_def Size_def Body_def ID_def Type_def int32Bytes_def endPadBytes_def
      PutUint32_def DecodeClientPacket_def ReadInt32_def ReadFull_def NewReader_def Uint32_def
      Trim_def trimLeftByte_def trimRightByte_def specTrimTrailing_def)

subsection \<open>Trimming of the decoded body\<close>

lemma takeWhile_eq_replicate:
  "takeWhile (\<lambda>b. b = c) xs = replicate (length (takeWhile (\<lambda>b. b = c) xs)) c"
  by (induction xs) simp_all

lemma trimLeftByte_decomp: "\<exists>n. s = replicate n c @ trimLeftByte s c"
proof -
  have "s = takeWhile (\<lambda>b. b = c) s @ dropWhile (\<lambda>b. b = c) s" by simp
  then have "s = replicate (length (takeWhile (\<lambda>b. b = c) s)) c @ trimLeftByte s c"
    using takeWhile_eq_replicate [of c s] by (simp add: trimLeftByte_def)
  then show ?thesis ..
qed

lemma trimRightByte_decomp: "\<exists>m. s = trimRightByte s c @ replicate m c"
proof -
  obtain n where "rev s = replicate n c @ trimLeftByte (rev s) c"
    using trimLeftByte_decomp by blast
  then have "rev (rev s) = rev (replicate n c @ trimLeftByte (rev s) c)" by simp
  then have "s = trimRightByte s c @ replicate n c"
    by (simp add: trimRightByte_def trimLeftByte_def)
  then show ?thesis ..
qed

lemma hd_trimLeftByte: "trimLeftByte s c \<noteq> [] \<Longrightarrow> hd (trimLeftByte s c) \<noteq> c"
  unfolding trimLeftByte_def using hd_dropWhile [of "\<lambda>b. b = c" s] by simp

lemma last_trimRightByte: "trimRightByte s c \<noteq> [] \<Longrightarrow> last (trimRightByte s c) \<noteq> c"
  unfolding trimRightByte_def using hd_dropWhile [of "\<lambda>b. b = c" "rev s"]
  by (simp add: last_rev)

lemma last_trimLeftByte:
  "trimLeftByte s c \<noteq> [] \<Longrightarrow> last (trimLeftByte s c) = last s"
proof -
  assume ne: "trimLeftByte s c \<noteq> []"
  obtain n where "s = replicate n c @ trimLeftByte s c"
    using trimLeftByte_decomp by blast
  then have "last s = last (replicate n c @ trimLeftByte s c)" by simp
  with ne show ?thesis by simp
qed

lemma Trim_decomp:
  "\<exists>n m. s = replicate n c @ Trim s c @ replicate m c"
proof -
  obtain m where m: "s = trimRightByte s c @ replicate m c"
    using trimRightByte_decomp by blast
  obtain n where n: "trimRightByte s c = replicate n c @ Trim s c"
    unfolding Trim_def using trimLeftByte_decomp by blast
  from m n have "s = replicate n c @ Trim s c @ replicate m c" by simp
  then show ?thesis by blast
qed

lemma Trim_ends: "Trim s c \<noteq> [] \<Longrightarrow> hd (Trim s c) \<noteq> c \<and> last (Trim s c) \<noteq> c"
proof -
  assume ne: "Trim s c \<noteq> []"
  then have "trimRightByte s c \<noteq> []"
    by (auto simp: Trim_def trimLeftByte_def)
  then have "last (trimRightByte s c) \<noteq> c" by (rule last_trimRightByte)
  moreover have "last (Trim s c) = last (trimRightByte s c)"
    using ne unfolding Trim_def by (rule last_trimLeftByte)
  moreover have "hd (Trim s c) \<noteq> c"
    using ne unfolding Trim_def by (rule hd_trimLeftByte)
  ultimately show ?thesis by simp
qed

lemma buildPayloadFromPacket_frame:
  assumes frame: "pending r = PutUint32 Little sz @ PutUint32 Little i @ PutUint32 Little t @ raw @ rest"
    and len: "sint (sz - 8) = int (length raw)" and ne: "raw \<noteq> []"
  shows "buildPayloadFromPacket r =
           (Ok \<lparr>payloadID = i, payloadType = t, payloadBody = Trim (Trim raw 0) 10\<rparr>,
            r\<lparr>pending := rest\<rparr>)"
proof -
  let ?r1 = "r\<lparr>pending := PutUint32 Little i @ PutUint32 Little t @ raw @ rest\<rparr>"
  let ?r2 = "r\<lparr>pending := PutUint32 Little t @ raw @ rest\<rparr>"
  let ?r3 = "r\<lparr>pending := raw @ rest\<rparr>"
  have 1: "ReadInt32 Little r = (Inr sz, ?r1)"
    using frame by (rule ReadInt32_PutUint32)
  have 2: "ReadInt32 Little ?r1 = (Inr i, ?r2)"
    using ReadInt32_PutUint32 [of ?r1 Little i "PutUint32 Little t @ raw @ rest"] by simp
  have 3: "ReadInt32 Little ?r2 = (Inr t, ?r3)"
    using ReadInt32_PutUint32 [of ?r2 Little t "raw @ rest"] by simp
  have 4: "ReadFull ?r3 (length raw) = (Inr raw, r\<lparr>pending := rest\<rparr>)"
    using ReadFull_prefix [of ?r3 raw rest] by simp
  show ?thesis
    unfolding buildPayloadFromPacket_def
    by (simp add: 1 2 3 4 ne len Let_def payloadIDBytes_def payloadTypeBytes_def)
qed

text \<open>
  C5 (as amended). For every input that holds a whole frame (the three header fields
  and the \<open>size - 8\<close> body bytes \<open>raw\<close>), \<open>DecodeClientPacket\<close> returns the header's id and
  type and the body \<open>b\<close> obtained by removing the null bytes at both ends of \<open>raw\<close> and
  then the newline bytes at both ends of what is left; the bytes in between are
  unchanged. \<open>buildPayloadFromPacket\<close> returns the same body for a little-endian frame
  with a non-empty \<open>raw\<close>.
\<close>

theorem C5_decode_trims_both_ends:
  assumes "pending r = PutUint32 order sz @ PutUint32 order i @ PutUint32 order t @ raw @ rest"
    and "sint (sz - 8) = int (length raw)"
  shows "\<exists>b mid n0 m0 n1 m1.
           fst (DecodeClientPacket order r) = Ok \<lparr>mode = order, pType = t, body = b, idf = i\<rparr> \<and>
           (order = Little \<and> raw \<noteq> [] \<longrightarrow>
              fst (buildPayloadFromPacket r) = Ok \<lparr>payloadID = i, payloadType = t, payloadBody = b\<rparr>) \<and>
           b = Trim (Trim raw 0) 10 \<and>
           raw = replicate n0 0 @ mid @ replicate m0 0 \<and>
           (mid \<noteq> [] \<longrightarrow> hd mid \<noteq> 0 \<and> last mid \<noteq> 0) \<and>
           mid = replicate n1 10 @ b @ replicate m1 10 \<and>
           (b \<noteq> [] \<longrightarrow> hd b \<noteq> 10 \<and> last b \<noteq> 10)"
proof -
  let ?mid = "Trim raw 0" and ?b = "Trim (Trim raw 0) 10"
  obtain n0 m0 where 1: "raw = replicate n0 0 @ ?mid @ replicate m0 0"
    using Trim_decomp by blast
  obtain n1 m1 where 2: "?mid = replicate n1 10 @ ?b @ replicate m1 10"
    using Trim_decomp by blast
  have 3: "?mid \<noteq> [] \<longrightarrow> hd ?mid \<noteq> 0 \<and> last ?mid \<noteq> 0"
    using Trim_ends by blast
  have 4: "?b \<noteq> [] \<longrightarrow> hd ?b \<noteq> 10 \<and> last ?b \<noteq> 10"
    using Trim_ends by blast
  have 5: "fst (DecodeClientPacket order r) = Ok \<lparr>mode = order, pType = t, body = ?b, idf = i\<rparr>"
    using DecodeClientPacket_frame [OF assms] by simp
  have 6: "order = Little \<and> raw \<noteq> [] \<longrightarrow>
      fst (buildPayloadFromPacket r) = Ok \<lparr>payloadID = i, payloadType = t, payloadBody = ?b\<rparr>"
    using buildPayloadFromPacket_frame [of r sz i t raw rest] assms by auto
  from 1 2 3 4 5 6 show ?thesis by blast
qed

theorem C5_decode_witness:
  "fst (DecodeClientPacket Little (NewReader [12, 0, 0, 0, 1, 0, 0, 0, 0, 0, 0, 0, 0, 10, 97, 0])) =
     Ok \<lparr>mode = Little, pType = 0, body = [97], idf = 1\<rparr> \<and>
   fst (buildPayloadFromPacket (NewReader [12, 0, 0, 0, 1, 0, 0, 0, 0, 0, 0, 0, 0, 10, 97, 0])) =
     Ok \<lparr>payloadID = 1, payloadType = 0, payloadBody = [97]\<rparr>"
proof -
  have frame: "pending (NewReader [12, 0, 0, 0, 1, 0, 0, 0, 0, 0, 0, 0, 0, 10, 97, 0]) =
      PutUint32 Little 12 @ PutUint32 Little 1 @ PutUint32 Little 0 @ [0, 10, 97, 0] @ []"
    by (simp add: NewReader_def PutUint32_def)
  have len: "sint (12 - 8 :: int32) = int (length [0, 10, 97, 0 :: byte])" by simp
  from C5_decode_trims_both_ends [OF frame len]
  show ?thesis
    by (auto simp: Trim_def trimLeftByte_def trimRightByte_def)
qed

text \<open>
  C5 as the specification states it fails: a null byte at the head of the body is
  removed too, while trimming the end alone would keep it.
\<close>

theorem C5_counterexample:
  "fst (DecodeClientPacket Little (NewReader [11, 0, 0, 0, 1, 0, 0, 0, 0, 0, 0, 0, 0, 97, 0])) =
     Ok \<lparr>mode = Little, pType = 0, body = [97], idf = 1\<rparr> \<and>
   specTrimTrailing [0, 97, 0] = [0, 97] \<and>
   fst (DecodeClientPacket Little (NewReader [11, 0, 0, 0, 1, 0, 0, 0, 0, 0, 0, 0, 0, 97, 0])) \<noteq>
     Ok \<lparr>mode = Little, pType = 0, body = specTrimTrailing [0, 97, 0], idf = 1\<rparr>"
  by (simp add: DecodeClientPacket_def ReadInt32_def ReadFull_def NewReader_def Uint32_def
      Trim_def trimLeftByte_def trimRightByte_def specTrimTrailing_def)

subsection \<open>When the decoder panics\<close>

lemma ReadFull_short: "length (pending r) < n \<Longrightarrow> \<exists>e r'. ReadFull r n = (Inl e, r')"
  by (simp add: ReadFull_def)

lemma ReadFull_enough:
  "n \<le> length (pending r) \<Longrightarrow>
   ReadFull r n = (Inr (take n (pending r)), r\<lparr>pending := drop n (pending r)\<rparr>)"
  by (simp add: ReadFull_def)

lemma ReadInt32_short: "length (pending r) < 4 \<Longrightarrow> \<exists>e r'. ReadInt32 order r = (Inl e, r')"
  using ReadFull_short [of r 4] by (auto simp: ReadInt32_def)

lemma ReadInt32_enough:
  "4 \<le> length (pending r) \<Longrightarrow>
   ReadInt32 order r =
     (Inr (Uint32 order (pending r ! 0) (pending r ! 1) (pending r ! 2) (pending r ! 3)),
      r\<lparr>pending := drop 4 (pending r)\<rparr>)"
  using ReadFull_enough [of 4 r] by (simp add: ReadInt32_def)

text \<open>The size field a stream announces: its first four bytes in the given order.\<close>

lemma sint_minus_8:
  "sint (sz - 8 :: int32) =
     (if sint sz < - (2 ^ 31) + 8 then sint sz - 8 + 2 ^ 32 else sint sz - 8)"
proof -
  have lo: "- (2 ^ 31) \<le> sint sz" using sint_ge [of sz] by simp
  have hi: "sint sz < 2 ^ 31" using sint_lt [of sz] by simp
  have "sint (sz - 8) = signed_take_bit 31 (sint sz - 8)"
    by (simp add: sint_word_ariths)
  also have "\<dots> = (sint sz - 8 + 2 ^ 31) mod 2 ^ 32 - 2 ^ 31"
    by (simp add: signed_take_bit_eq_take_bit_shift take_bit_eq_mod)
  finally have eq: "sint (sz - 8) = (sint sz - 8 + 2 ^ 31) mod 2 ^ 32 - 2 ^ 31" .
  show ?thesis
  proof (cases "sint sz < - (2 ^ 31) + 8")
    case True
    have "(sint sz - 8 + 2 ^ 31) mod 2 ^ 32 = (sint sz - 8 + 2 ^ 31 + 2 ^ 32) mod 2 ^ 32"
      by (rule mod_add_self2 [symmetric])
    also have "\<dots> = sint sz - 8 + 2 ^ 31 + 2 ^ 32"
      using True lo by (intro mod_pos_pos_trivial) simp_all
    finally show ?thesis using True eq by simp
  next
    case False
    then have "(sint sz - 8 + 2 ^ 31) mod 2 ^ 32 = sint sz - 8 + 2 ^ 31"
      using hi by (intro mod_pos_pos_trivial) simp_all
    with False eq show ?thesis by simp
  qed
qed

lemma sint_minus_8_negative:
  "sint (sz - 8 :: int32) < 0 \<longleftrightarrow> - (2 ^ 31) + 8 \<le> sint sz \<and> sint sz < 8"
  using sint_ge [of sz] sint_lt [of sz] by (simp add: sint_minus_8)

lemma DecodeClientPacket_header_short:
  assumes "length (pending r) < 12"
  shows "\<exists>e. fst (DecodeClientPacket order r) = Err e"
proof -
  consider "length (pending r) < 4" | "4 \<le> length (pending r)" "length (pending r) < 8"
    | "8 \<le> length (pending r)" "length (pending r) < 12"
    using assms by linarith
  then show ?thesis
  proof cases
    case 1
    then obtain e r' where "ReadInt32 order r = (Inl e, r')"
      using ReadInt32_short by blast
    then show ?thesis by (simp add: DecodeClientPacket_def)
  next
    case 2
    let ?r1 = "r\<lparr>pending := drop 4 (pending r)\<rparr>"
    have "length (pending ?r1) < 4" using 2 by simp
    then obtain e r' where "ReadInt32 order ?r1 = (Inl e, r')"
      using ReadInt32_short by blast
    then show ?thesis
      using ReadInt32_enough [OF 2(1), of order] by (simp add: DecodeClientPacket_def)
  next
    case 3
    let ?r1 = "r\<lparr>pending := drop 4 (pending r)\<rparr>"
    let ?r2 = "?r1\<lparr>pending := drop 4 (pending ?r1)\<rparr>"
    have a: "4 \<le> length (pending r)" and b: "4 \<le> length (pending ?r1)"
      using 3 by simp_all
    have "length (pending ?r2) < 4" using 3 by simp
    then obtain e r' where "ReadInt32 order ?r2 = (Inl e, r')"
      using ReadInt32_short by blast
    then show ?thesis
      using ReadInt32_enough [OF a, of order] ReadInt32_enough [OF b, of order]
      by (simp add: DecodeClientPacket_def)
  qed
qed

lemma DecodeClientPacket_header_whole:
  assumes "12 \<le> length (pending r)"
  shows "fst (DecodeClientPacket order r) =
           (let sz = Uint32 order (pending r ! 0) (pending r ! 1) (pending r ! 2) (pending r ! 3);
                i = Uint32 order (pending r ! 4) (pending r ! 5) (pending r ! 6) (pending r ! 7);
                t = Uint32 order (pending r ! 8) (pending r ! 9) (pending r ! 10) (pending r ! 11)
            in if sint (sz - 8) < 0 then Panic MakeSliceLenOutOfRange
               else case fst (ReadFull (r\<lparr>pending := drop 12 (pending r)\<rparr>) (nat (sint (sz - 8)))) of
                      Inl e \<Rightarrow> Err e
                    | Inr b \<Rightarrow> Ok \<lparr>mode = order, pType = t, body = Trim (Trim b 0) 10, idf = i\<rparr>)"
proof -
  let ?r1 = "r\<lparr>pending := drop 4 (pending r)\<rparr>"
  let ?r2 = "r\<lparr>pending := drop 8 (pending r)\<rparr>"
  have a: "4 \<le> length (pending r)" and b: "4 \<le> length (pending ?r1)"
    and c: "4 \<le> length (pending ?r2)"
    using assms by simp_all
  have 1: "ReadInt32 order r =
      (Inr (Uint32 order (pending r ! 0) (pending r ! 1) (pending r ! 2) (pending r ! 3)), ?r1)"
    using ReadInt32_enough [OF a] .
  have 2: "ReadInt32 order ?r1 =
      (Inr (Uint32 order (pending r ! 4) (pending r ! 5) (pending r ! 6) (pending r ! 7)), ?r2)"
    using ReadInt32_enough [OF b, of order] assms by (simp add: add.commute)
  have 3: "ReadInt32 order ?r2 =
      (Inr (Uint32 order (pending r ! 8) (pending r ! 9) (pending r ! 10) (pending r ! 11)),
       r\<lparr>pending := drop 12 (pending r)\<rparr>)"
    using ReadInt32_enough [OF c, of order] assms by (simp add: add.commute)
  show ?thesis
    unfolding DecodeClientPacket_def
    by (simp add: 1 2 3 Let_def split: prod.splits sum.splits)
qed

text \<open>
  C10 (as amended). \<open>DecodeClientPacket\<close> panics exactly on the streams that deliver
  the whole 12-byte header and announce a size \<open>s\<close> with \<open>-2^31 + 8 \<le> s < 8\<close>, and the
  panic is the one of \<open>make\<close> with a negative length. Every other stream takes the
  error-or-success return path: a stream that ends inside the header returns the
  read error whatever its size field says, and for \<open>s < -2^31 + 8\<close> the \<open>int32\<close>
  subtraction \<open>s - 8\<close> wraps around to a positive length.
\<close>

theorem C10_decode_panics_iff:
  "fst (DecodeClientPacket order r) = Panic x \<longleftrightarrow>
     x = MakeSliceLenOutOfRange \<and> 12 \<le> length (pending r) \<and>
     - (2 ^ 31) + 8 \<le> sint (Uint32 order (pending r ! 0) (pending r ! 1) (pending r ! 2) (pending r ! 3)) \<and>
     sint (Uint32 order (pending r ! 0) (pending r ! 1) (pending r ! 2) (pending r ! 3)) < 8"
proof (cases "12 \<le> length (pending r)")
  case True
  show ?thesis
    unfolding DecodeClientPacket_header_whole [OF True] sint_minus_8_negative [symmetric]
    using True by (auto simp: Let_def split: sum.splits)
next
  case False
  then have "length (pending r) < 12" by simp
  then obtain e where "fst (DecodeClientPacket order r) = Err e"
    using DecodeClientPacket_header_short by blast
  with False show ?thesis by simp
qed

theorem C10_decode_panics_witness:
  "fst (DecodeClientPacket Little (NewReader [7, 0, 0, 0, 1, 0, 0, 0, 2, 0, 0, 0])) =
     Panic MakeSliceLenOutOfRange \<and>
   (\<forall>x. fst (DecodeClientPacket Little (NewReader [8, 0, 0, 0, 1, 0, 0, 0, 2, 0, 0, 0])) \<noteq> Panic x)"
  using C10_decode_panics_iff [of Little "NewReader [7, 0, 0, 0, 1, 0, 0, 0, 2, 0, 0, 0]"
      MakeSliceLenOutOfRange]
    C10_decode_panics_iff [of Little "NewReader [8, 0, 0, 0, 1, 0, 0, 0, 2, 0, 0, 0]"]
  by (simp add: NewReader_def Uint32_def)

text \<open>
  C10 as stated fails: a stream that announces size 0 and then ends returns \<open>io.EOF\<close>
  from the read of the id, and a stream that announces \<open>-2^31\<close> gets the body length
  \<open>2^31 - 8\<close> and returns the error of the body read.
\<close>

theorem C10_counterexample:
  "sint (Uint32 Little 0 0 0 0) < 8 \<and>
   fst (DecodeClientPacket Little (NewReader [0, 0, 0, 0])) = Err EOF \<and>
   sint (Uint32 Little 0 0 0 128) < 8 \<and>
   fst (DecodeClientPacket Little (NewReader [0, 0, 0, 128, 1, 0, 0, 0, 0, 0, 0, 0])) = Err EOF"
  by (simp add: DecodeClientPacket_def ReadInt32_def ReadFull_def NewReader_def Uint32_def)

subsection \<open>Frame size limit and size field\<close>

lemma buildPacketFromPayload_eq:
  "buildPacketFromPayload p =
     (if 2048 \<le> length (payloadBody p) + 14 then Inl ErrPayloadTooLarge
      else Inr (PutUint32 Little (getSize p) @ PutUint32 Little (payloadID p) @
                PutUint32 Little (payloadType p) @ payloadBody p @ [0, 0]))"
  by (simp add: buildPacketFromPayload_def Let_def length_PutUint32 payloadMaxSize_def)

text \<open>
  The older encoder has the limit: it returns its error exactly when the finished
  buffer, 14 bytes longer than the body, reaches 2048 bytes.
\<close>

lemma buildPacketFromPayload_too_large:
  "buildPacketFromPayload p = Inl ErrPayloadTooLarge \<longleftrightarrow> 2034 \<le> length (payloadBody p)"
  by (auto simp: buildPacketFromPayload_eq)

lemma Build_never_fails: "Build p \<noteq> Inl e"
  by (simp add: Build_eq)

text \<open>
  C2, at the failing input. \<open>Build\<close> of a packet with a body of 2038 bytes returns
  2052 bytes and no error, while \<open>buildPacketFromPayload\<close> rejects the same payload.
\<close>

theorem C2_Build_has_no_limit:
  "map_sum id length (Build \<lparr>mode = Little, pType = TypeCommand, body = replicate 2038 65, idf = 1\<rparr>)
     = Inr 2052 \<and>
   buildPacketFromPayload \<lparr>payloadID = 1, payloadType = 2, payloadBody = replicate 2038 65\<rparr>
     = Inl ErrPayloadTooLarge"
  by (simp add: length_Build buildPacketFromPayload_eq)

text \<open>
  The size field of the packets \<open>Build\<close> is meant for: when \<open>len(body) + 10\<close> fits an
  \<open>int32\<close>, the field read back as a signed number is the length of the bytes less 4.
\<close>

lemma Build_size_field:
  assumes "length (body p) + 10 < 2 ^ 31" and "Build p = Inr bs"
  shows "sint (Uint32 (mode p) (bs ! 0) (bs ! 1) (bs ! 2) (bs ! 3)) = int (length bs) - 4"
proof -
  have bs: "bs = PutUint32 (mode p) (Size p) @ PutUint32 (mode p) (idf p) @
      PutUint32 (mode p) (pType p) @ body p @ [0, 0]"
    using assms(2) by (simp add: Build_eq)
  have "bs ! 0 = PutUint32 (mode p) (Size p) ! 0" "bs ! 1 = PutUint32 (mode p) (Size p) ! 1"
    "bs ! 2 = PutUint32 (mode p) (Size p) ! 2" "bs ! 3 = PutUint32 (mode p) (Size p) ! 3"
    unfolding bs by (simp_all add: nth_append length_PutUint32)
  then have "Uint32 (mode p) (bs ! 0) (bs ! 1) (bs ! 2) (bs ! 3) = Size p"
    using Uint32_PutUint32 [of "mode p" "Size p"] by simp
  moreover have "sint (Size p) = int (length (body p)) + 10"
  proof -
    have "sint (of_nat (length (body p) + 10) :: int32) = int (length (body p) + 10)"
      using assms(1) by (simp only: signed_of_nat) (simp add: signed_take_bit_int_eq_self)
    then show ?thesis by (simp add: Size_eq)
  qed
  moreover have "length bs = length (body p) + 14"
    unfolding bs by (simp add: length_PutUint32)
  ultimately show ?thesis by simp
qed

lemma buildPacketFromPayload_size_field:
  assumes "buildPacketFromPayload p = Inr bs"
  shows "sint (Uint32 Little (bs ! 0) (bs ! 1) (bs ! 2) (bs ! 3)) = int (length bs) - 4"
proof -
  have small: "length (payloadBody p) + 14 < 2048"
    using assms by (simp add: buildPacketFromPayload_eq split: if_splits)
  then have bs: "bs = PutUint32 Little (getSize p) @ PutUint32 Little (payloadID p) @
      PutUint32 Little (payloadType p) @ payloadBody p @ [0, 0]"
    using assms by (simp add: buildPacketFromPayload_eq)
  have "bs ! 0 = PutUint32 Little (getSize p) ! 0" "bs ! 1 = PutUint32 Little (getSize p) ! 1"
    "bs ! 2 = PutUint32 Little (getSize p) ! 2" "bs ! 3 = PutUint32 Little (getSize p) ! 3"
    unfolding bs by (simp_all add: nth_append length_PutUint32)
  then have "Uint32 Little (bs ! 0) (bs ! 1) (bs ! 2) (bs ! 3) = getSize p"
    using Uint32_PutUint32 [of Little "getSize p"] by simp
  moreover have "sint (getSize p) = int (length (payloadBody p)) + 10"
  proof -
    have "sint (of_nat (length (payloadBody p) + 10) :: int32) = int (length (payloadBody p) + 10)"
      using small by (simp only: signed_of_nat) (simp add: signed_take_bit_int_eq_self)
    then show ?thesis
      by (simp add: getSize_def payloadIDBytes_def payloadTypeBytes_def payloadNullBytes_def)
  qed
  moreover have "length bs = length (payloadBody p) + 14"
    unfolding bs by (simp add: length_PutUint32)
  ultimately show ?thesis by simp
qed

text \<open>
  In particular the field is right for every packet below the frame limit of 2048
  bytes.
\<close>

lemma Build_size_field_below_limit:
  assumes "Build p = Inr bs" and "length bs < 2048"
  shows "sint (Uint32 (mode p) (bs ! 0) (bs ! 1) (bs ! 2) (bs ! 3)) = int (length bs) - 4"
proof -
  have "length bs = length (body p) + 14"
    using assms(1) by (auto simp: Build_eq length_PutUint32)
  with assms(2) have "length (body p) + 10 < 2 ^ 31" by simp
  from Build_size_field [OF this assms(1)] show ?thesis .
qed

text \<open>
  C9, at the failing input. \<open>Build\<close> has no frame limit, so it accepts a body of \<open>2^32\<close>
  bytes: it returns \<open>2^32 + 14\<close> bytes, and the size field in front of them is 10, not
  \<open>2^32 + 10\<close>.
\<close>

theorem C9_size_field_wraps:
  "map_sum id length (Build \<lparr>mode = Little, pType = TypeCommand, body = replicate (2 ^ 32) 65, idf = 1\<rparr>)
     = Inr (2 ^ 32 + 14) \<and>
   map_sum id (take 4) (Build \<lparr>mode = Little, pType = TypeCommand, body = replicate (2 ^ 32) 65, idf = 1\<rparr>)
     = Inr [10, 0, 0, 0] \<and>
   sint (Uint32 Little 10 0 0 0) = 10 \<and>
   buildPacketFromPayload \<lparr>payloadID = 1, payloadType = 2, payloadBody = replicate (2 ^ 32) 65\<rparr>
     = Inl ErrPayloadTooLarge"
proof -
  let ?p = "\<lparr>mode = Little, pType = TypeCommand, body = replicate (2 ^ 32) 65, idf = 1\<rparr>"
  have sz: "Size ?p = 10"
    by (simp add: Size_eq)
  have "map_sum id (take 4) (Build ?p) = Inr (PutUint32 Little (Size ?p))"
    by (simp add: Build_eq length_PutUint32)
  also have "\<dots> = Inr [10, 0, 0, 0]"
    unfolding sz by (simp add: PutUint32_def)
  finally have "map_sum id (take 4) (Build ?p) = Inr [10, 0, 0, 0]" .
  moreover have "map_sum id length (Build ?p) = Inr (2 ^ 32 + 14)"
    by (simp add: length_Build)
  moreover have "sint (Uint32 Little 10 0 0 0) = 10"
    by (simp add: Uint32_def)
  moreover have "buildPacketFromPayload
      \<lparr>payloadID = 1, payloadType = 2, payloadBody = replicate (2 ^ 32) 65\<rparr> = Inl ErrPayloadTooLarge"
    by (simp add: buildPacketFromPayload_eq)
  ultimately show ?thesis by simp
qed

subsection \<open>The ID allocator\<close>

lemma idInArr_iff: "idInArr arr i \<longleftrightarrow> i \<in> set arr"
  by (induction arr) auto

lemma skipRestricted_stop: "i \<notin> set R \<Longrightarrow> skipRestricted R i = Some i"
  by (subst skipRestricted.simps) (simp add: idInArr_iff)

lemma skipRestricted_go: "i \<in> set R \<Longrightarrow> skipRestricted R i = skipRestricted R (advance i)"
  by (subst skipRestricted.simps) (simp add: idInArr_iff)

lemma sint_int32:
  "sint (n :: int32) = (if uint n < 2 ^ 31 then uint n else uint n - 2 ^ 32)"
proof -
  have lo: "0 \<le> uint n" by simp
  have hi: "uint n < 2 ^ 32" using uint_bounded [of n] by simp
  have eq: "sint n = (uint n + 2 ^ 31) mod 2 ^ 32 - 2 ^ 31"
    by (simp add: sint_uint signed_take_bit_eq_take_bit_shift take_bit_eq_mod)
  show ?thesis
  proof (cases "uint n < 2 ^ 31")
    case True
    then have "(uint n + 2 ^ 31) mod 2 ^ 32 = uint n + 2 ^ 31"
      using lo by (intro mod_pos_pos_trivial) simp_all
    with True eq show ?thesis by simp
  next
    case False
    have "uint n + 2 ^ 31 = uint n + 2 ^ 31 - 2 ^ 32 + 2 ^ 32"
      by simp
    then have "(uint n + 2 ^ 31) mod 2 ^ 32 = (uint n + 2 ^ 31 - 2 ^ 32 + 2 ^ 32) mod 2 ^ 32"
      by (rule arg_cong)
    also have "\<dots> = (uint n + 2 ^ 31 - 2 ^ 32) mod 2 ^ 32"
      by (rule mod_add_self2)
    also have "\<dots> = uint n + 2 ^ 31 - 2 ^ 32"
      using False hi by (intro mod_pos_pos_trivial) simp_all
    finally show ?thesis using False eq by simp
  qed
qed

lemma sint_range_uint:
  "0 \<le> sint (n :: int32) \<and> sint n \<le> 2147483646 \<longleftrightarrow> uint n \<le> 2147483646"
  "1 \<le> sint (n :: int32) \<and> sint n \<le> 2147483646 \<longleftrightarrow> 1 \<le> uint n \<and> uint n \<le> 2147483646"
proof -
  have hi: "uint n < 2 ^ 32" using uint_bounded [of n] by simp
  have lo: "0 \<le> uint n" by simp
  show "0 \<le> sint n \<and> sint n \<le> 2147483646 \<longleftrightarrow> uint n \<le> 2147483646"
  proof (cases "uint n < 2 ^ 31")
    case True
    then have "sint n = uint n" by (simp add: sint_int32)
    then show ?thesis using lo by simp
  next
    case False
    then have "sint n < 0" using hi by (simp add: sint_int32)
    moreover have "\<not> uint n \<le> 2147483646" using False by simp
    ultimately show ?thesis by simp
  qed
  show "1 \<le> sint n \<and> sint n \<le> 2147483646 \<longleftrightarrow> 1 \<le> uint n \<and> uint n \<le> 2147483646"
  proof (cases "uint n < 2 ^ 31")
    case True
    then have "sint n = uint n" by (simp add: sint_int32)
    then show ?thesis by simp
  next
    case False
    then have "sint n < 0" using hi by (simp add: sint_int32)
    moreover have "\<not> uint n \<le> 2147483646" using False by simp
    ultimately show ?thesis by simp
  qed
qed

lemma uint_advance:
  assumes "uint n \<le> 2147483646"
  shows "uint (advance n) = (if uint n = 2147483646 then 1 else uint n + 1)"
proof -
  have "uint n + uint (1 :: int32) < 2 ^ LENGTH(32)" using assms by simp
  then have suc: "uint (n + 1) = uint n + 1"
    using uint_add_lem [of n 1] by simp
  have "n + 1 = MaxInt32 \<longleftrightarrow> uint (n + 1) = uint MaxInt32"
    by (rule word_uint_eq_iff)
  then have "n + 1 = MaxInt32 \<longleftrightarrow> uint n = 2147483646"
    by (simp add: suc MaxInt32_def)
  then show ?thesis
    using assms by (simp add: advance_def suc)
qed

text \<open>
  How many rounds of the loop lead from \<open>n\<close> to \<open>y\<close>, both in \<open>[1, 2^31 - 2]\<close>, around
  the wrap from \<open>2^31 - 2\<close> to 1.
\<close>

lemma skipRestricted_terminates:
  assumes y: "1 \<le> uint y" "uint y \<le> 2147483646" "y \<notin> set R"
    and d: "d = nat (if uint n \<le> uint y then uint y - uint n else uint y + 2147483646 - uint n)"
    and n: "1 \<le> uint n" "uint n \<le> 2147483646"
  shows "\<exists>z. skipRestricted R n = Some z \<and> 1 \<le> uint z \<and> uint z \<le> 2147483646 \<and> z \<notin> set R"
  using d n
proof (induction d arbitrary: n rule: less_induct)
  case (less d)
  show ?case
  proof (cases "n \<in> set R")
    case False
    then show ?thesis using less.prems by (simp add: skipRestricted_stop)
  next
    case True
    with y have "n \<noteq> y" by blast
    then have ne: "uint n \<noteq> uint y" by (simp add: word_uint_eq_iff)
    let ?n' = "advance n"
    have adv: "uint ?n' = (if uint n = 2147483646 then 1 else uint n + 1)"
      using less.prems(3) by (rule uint_advance)
    let ?d' = "nat (if uint ?n' \<le> uint y then uint y - uint ?n' else uint y + 2147483646 - uint ?n')"
    have "?d' < d"
      unfolding less.prems(1) adv using ne y(1,2) less.prems(2,3)
      by (simp split: if_splits)
    moreover have "1 \<le> uint ?n'" "uint ?n' \<le> 2147483646"
      unfolding adv using less.prems(2,3) by simp_all
    ultimately have "\<exists>z. skipRestricted R ?n' = Some z \<and> 1 \<le> uint z \<and> uint z \<le> 2147483646 \<and> z \<notin> set R"
      using less.IH [of ?d' ?n'] by blast
    then show ?thesis using True by (simp add: skipRestricted_go)
  qed
qed

text \<open>
  Whatever the restricted IDs, a value the loop returns from a start in
  \<open>[1, 2^31 - 2]\<close> is in that range and not restricted.
\<close>

lemma skipRestricted_partial:
  assumes "skipRestricted R n = Some z"
  shows "1 \<le> uint n \<longrightarrow> uint n \<le> 2147483646 \<longrightarrow>
         1 \<le> uint z \<and> uint z \<le> 2147483646 \<and> z \<notin> set R"
proof (rule skipRestricted.raw_induct
    [where P = "\<lambda>R n z. 1 \<le> uint n \<longrightarrow> uint n \<le> 2147483646 \<longrightarrow>
         1 \<le> uint z \<and> uint z \<le> 2147483646 \<and> z \<notin> set R", OF _ assms])
  fix skip :: "int32 list \<Rightarrow> int32 \<Rightarrow> int32 option" and R n z
  assume IH: "\<And>R n z. skip R n = Some z \<Longrightarrow> 1 \<le> uint n \<longrightarrow> uint n \<le> 2147483646 \<longrightarrow>
         1 \<le> uint z \<and> uint z \<le> 2147483646 \<and> z \<notin> set R"
    and eq: "(if idInArr R n then skip R (advance n) else Some n) = Some z"
  show "1 \<le> uint n \<longrightarrow> uint n \<le> 2147483646 \<longrightarrow>
         1 \<le> uint z \<and> uint z \<le> 2147483646 \<and> z \<notin> set R"
  proof (intro impI)
    assume n: "1 \<le> uint n" "uint n \<le> 2147483646"
    show "1 \<le> uint z \<and> uint z \<le> 2147483646 \<and> z \<notin> set R"
    proof (cases "n \<in> set R")
      case False
      with eq have "z = n" by (simp add: idInArr_iff)
      with n False show ?thesis by simp
    next
      case True
      with eq have "skip R (advance n) = Some z" by (simp add: idInArr_iff)
      moreover have "1 \<le> uint (advance n)" "uint (advance n) \<le> 2147483646"
        using n by (simp_all add: uint_advance)
      ultimately show ?thesis using IH by blast
    qed
  qed
qed

text \<open>
  The counter starts at 0, and \<open>getNextID\<close> takes a counter in \<open>[0, 2^31 - 2]\<close> to one
  in \<open>[1, 2^31 - 2]\<close>: these are the counter states a program reaches.
\<close>

lemma getNextID_keeps_range:
  assumes "0 \<le> sint c" "sint c \<le> 2 ^ 31 - 2" and "getNextID R c = Some z"
  shows "1 \<le> sint z \<and> sint z \<le> 2 ^ 31 - 2 \<and> z \<notin> set R"
proof -
  have c: "uint c \<le> 2147483646"
    using assms(1,2) sint_range_uint(1) [of c] by simp
  have "0 \<le> uint c" by simp
  with c have "1 \<le> uint (advance c)" "uint (advance c) \<le> 2147483646"
    by (simp_all add: uint_advance)
  with assms(3) have "1 \<le> uint z \<and> uint z \<le> 2147483646 \<and> z \<notin> set R"
    using skipRestricted_partial [of R "advance c" z] by (simp add: getNextID_def)
  then show ?thesis
    using sint_range_uint(2) [of z] by simp
qed

text \<open>
  C7. With a counter in \<open>[0, 2^31 - 2]\<close> and a restricted list that leaves some ID of
  \<open>[1, 2^31 - 2]\<close> free, \<open>getNextID\<close> returns, and its value is in \<open>[1, 2^31 - 2]\<close> and not
  restricted. From \<open>2^31 - 2\<close> the next ID is 1 (when 1 is not restricted), and from 10
  with 10, 11 and 12 restricted it is 13.
\<close>

theorem C7_getNextID:
  "(0 \<le> sint c \<and> sint c \<le> 2 ^ 31 - 2 \<and>
      (\<exists>y. 1 \<le> sint y \<and> sint y \<le> 2 ^ 31 - 2 \<and> y \<notin> set R) \<longrightarrow>
      (\<exists>z. getNextID R c = Some z \<and> 1 \<le> sint z \<and> sint z \<le> 2 ^ 31 - 2 \<and> z \<notin> set R)) \<and>
   (1 \<notin> set R \<longrightarrow> getNextID R (2 ^ 31 - 2) = Some 1) \<and>
   getNextID [10, 11, 12] 10 = Some 13"
proof (intro conjI impI)
  assume h: "0 \<le> sint c \<and> sint c \<le> 2 ^ 31 - 2 \<and>
    (\<exists>y. 1 \<le> sint y \<and> sint y \<le> 2 ^ 31 - 2 \<and> y \<notin> set R)"
  then obtain y where y: "1 \<le> uint y" "uint y \<le> 2147483646" "y \<notin> set R"
    using sint_range_uint(2) by auto
  have c: "uint c \<le> 2147483646"
    using h sint_range_uint(1) [of c] by simp
  have "0 \<le> uint c" by simp
  with c have a: "1 \<le> uint (advance c)" "uint (advance c) \<le> 2147483646"
    by (simp_all add: uint_advance)
  obtain z where "skipRestricted R (advance c) = Some z" "1 \<le> uint z" "uint z \<le> 2147483646"
      "z \<notin> set R"
    using skipRestricted_terminates [OF y refl a] by blast
  then show "\<exists>z. getNextID R c = Some z \<and> 1 \<le> sint z \<and> sint z \<le> 2 ^ 31 - 2 \<and> z \<notin> set R"
    using sint_range_uint(2) [of z] by (simp add: getNextID_def)
next
  assume "1 \<notin> set R"
  moreover have "advance (2 ^ 31 - 2) = 1" by (simp add: advance_def MaxInt32_def)
  ultimately show "getNextID R (2 ^ 31 - 2) = Some 1"
    by (simp add: getNextID_def skipRestricted_stop)
next
  have "advance 10 = 11" "advance 11 = 12" "advance 12 = 13"
    by (simp_all add: advance_def MaxInt32_def)
  then show "getNextID [10, 11, 12] 10 = Some 13"
    by (simp add: getNextID_def skipRestricted_go skipRestricted_stop)
qed

theorem C7_getNextID_witness:
  "0 \<le> sint (54320 :: int32) \<and> sint (54320 :: int32) \<le> 2 ^ 31 - 2 \<and>
   1 \<le> sint (54323 :: int32) \<and> sint (54323 :: int32) \<le> 2 ^ 31 - 2 \<and>
   54323 \<notin> set [54321, 54322 :: int32] \<and>
   (\<exists>z. getNextID [54321, 54322] 54320 = Some z \<and> 1 \<le> sint z \<and> sint z \<le> 2 ^ 31 - 2 \<and>
      z \<notin> set [54321, 54322]) \<and>
   getNextID [] (2 ^ 31 - 2) = Some 1"
proof -
  have range: "0 \<le> sint (54320 :: int32) \<and> sint (54320 :: int32) \<le> 2 ^ 31 - 2 \<and>
      1 \<le> sint (54323 :: int32) \<and> sint (54323 :: int32) \<le> 2 ^ 31 - 2 \<and>
      54323 \<notin> set [54321, 54322 :: int32]" by simp
  then have hyp: "0 \<le> sint (54320 :: int32) \<and> sint (54320 :: int32) \<le> 2 ^ 31 - 2 \<and>
      (\<exists>y :: int32. 1 \<le> sint y \<and> sint y \<le> 2 ^ 31 - 2 \<and> y \<notin> set [54321, 54322])"
    by blast
  have free: "(1 :: int32) \<notin> set []" by simp
  from C7_getNextID [of 54320 "[54321, 54322]"] hyp
  have "\<exists>z. getNextID [54321, 54322] 54320 = Some z \<and> 1 \<le> sint z \<and> sint z \<le> 2 ^ 31 - 2 \<and>
      z \<notin> set [54321, 54322]"
    by blast
  moreover from C7_getNextID [of 0 "[]"] free have "getNextID [] (2 ^ 31 - 2) = Some 1"
    by blast
  ultimately show ?thesis using range by blast
qed

subsection \<open>Authentication\<close>

text \<open>
  What \<open>authenticate\<close> returns once the request is sent and a response \<open>res\<close> is read:
  a response of another type than \<open>TypeAuthRes\<close> is accepted, whatever its id; the
  authentication error is returned only for \<open>TypeAuthRes\<close> with the id \<open>-1\<close>.
\<close>

lemma authenticate_response:
  assumes "newClientPacket c TypeAuth (Password c) n0 = Some (p, n)"
    and "sendPacket c p = (Ok (), c1)"
    and "readPacketTimeout c1 = (Ok res, c2)"
  shows "authenticate c n0 =
           Some (if Type res \<noteq> TypeAuthRes then Ok ()
                 else if ID res = AuthFailedID
                   then Err (Wrapped ErrAuthentication ''authentication failed'')
                 else Ok (), c2, n)"
  using assms by (simp add: authenticate_def Let_def)

text \<open>
  C1, at the failing input. The server answers the \<open>AUTH\<close> packet with a packet of type
  0 (\<open>COMMAND_RES\<close>) and id 5, or of type 0 and id \<open>-1\<close>: \<open>authenticate\<close> returns nil
  both times, and so does \<open>Connect\<close>.
\<close>

theorem C1_authenticate_accepts_other_types:
  "map_option fst (authenticate
     \<lparr>Password = [112, 119], EndianMode = Little, BroadcastChecker = defaultBroadcastChecker,
      hasBroadcastHandler = False, hasDisconnectHandler = False, RestrictedPacketIDs = [],
      conn = Some \<lparr>incoming = NewReader [10, 0, 0, 0, 5, 0, 0, 0, 0, 0, 0, 0, 0, 0],
                   written = [], closed = False\<rparr>,
      terminateClosed = False, writer = NotStarted, reader = NotStarted,
      readQueue = Map.empty, trace = []\<rparr> 0) = Some (Ok ()) \<and>
   map_option fst (authenticate
     \<lparr>Password = [112, 119], EndianMode = Little, BroadcastChecker = defaultBroadcastChecker,
      hasBroadcastHandler = False, hasDisconnectHandler = False, RestrictedPacketIDs = [],
      conn = Some \<lparr>incoming = NewReader [10, 0, 0, 0, 255, 255, 255, 255, 0, 0, 0, 0, 0, 0],
                   written = [], closed = False\<rparr>,
      terminateClosed = False, writer = NotStarted, reader = NotStarted,
      readQueue = Map.empty, trace = []\<rparr> 0) = Some (Ok ()) \<and>
   map_option fst (Connect
     (NewClient \<lparr>Password = [112, 119], EndianMode = Little, BroadcastChecker = defaultBroadcastChecker,
      hasBroadcastHandler = False, hasDisconnectHandler = False, RestrictedPacketIDs = []\<rparr>)
     (Inr \<lparr>incoming = NewReader [10, 0, 0, 0, 5, 0, 0, 0, 0, 0, 0, 0, 0, 0],
           written = [], closed = False\<rparr>) 0) = Some (Ok ())"
  by (simp add: Connect_def authenticate_def newClientPacket_def NewClientPacket_def getNextID_def
      advance_def MaxInt32_def skipRestricted_stop NewClient_def sendPacket_def Build_eq
      write_conn_def conn_Write_def readPacketTimeout_def SetDeadline_def DecodeClientPacket_def
      ReadInt32_def ReadFull_def NewReader_def Uint32_def Trim_def trimLeftByte_def
      trimRightByte_def Type_def ID_def TypeAuthRes_def TypeAuth_def AuthFailedID_def)

text \<open>
  The scenario the code does refuse: type \<open>AUTH_RES\<close> with id \<open>-1\<close> gives the
  authentication error.
\<close>

lemma authenticate_refuses_failed_id:
  "map_option fst (authenticate
     \<lparr>Password = [112, 119], EndianMode = Little, BroadcastChecker = defaultBroadcastChecker,
      hasBroadcastHandler = False, hasDisconnectHandler = False, RestrictedPacketIDs = [],
      conn = Some \<lparr>incoming = NewReader [10, 0, 0, 0, 255, 255, 255, 255, 2, 0, 0, 0, 0, 0],
                   written = [], closed = False\<rparr>,
      terminateClosed = False, writer = NotStarted, reader = NotStarted,
      readQueue = Map.empty, trace = []\<rparr> 0) =
   Some (Err (Wrapped ErrAuthentication ''authentication failed''))"
  by (simp add: authenticate_def newClientPacket_def NewClientPacket_def getNextID_def
      advance_def MaxInt32_def skipRestricted_stop sendPacket_def Build_eq
      write_conn_def conn_Write_def readPacketTimeout_def SetDeadline_def DecodeClientPacket_def
      ReadInt32_def ReadFull_def NewReader_def Uint32_def Trim_def trimLeftByte_def
      trimRightByte_def Type_def ID_def TypeAuthRes_def TypeAuth_def AuthFailedID_def)

subsection \<open>Commands before Connect and after Close\<close>

lemma getNextID_returns:
  assumes "0 \<le> sint n0" "sint n0 \<le> 2 ^ 31 - 2"
    and "\<exists>y. 1 \<le> sint y \<and> sint y \<le> 2 ^ 31 - 2 \<and> y \<notin> set R"
  shows "\<exists>z. getNextID R n0 = Some z"
proof -
  obtain y where y: "1 \<le> uint y" "uint y \<le> 2147483646" "y \<notin> set R"
    using assms(3) sint_range_uint(2) by auto
  have c: "uint n0 \<le> 2147483646"
    using assms(1,2) sint_range_uint(1) [of n0] by simp
  have "0 \<le> uint n0" by simp
  with c have a: "1 \<le> uint (advance n0)" "uint (advance n0) \<le> 2147483646"
    by (simp_all add: uint_advance)
  obtain z where "skipRestricted R (advance n0) = Some z"
    using skipRestricted_terminates [OF y refl a] by blast
  then show ?thesis by (simp add: getNextID_def)
qed

lemma enqueuePacket_timeout:
  "writer c \<noteq> Running \<or> \<not> received \<Longrightarrow>
   enqueuePacket c p m received =
     (Some (Wrapped ErrQueueTimeout ''packet queue operation timed out''), c)"
  by (auto simp: enqueuePacket_def)

lemma ExecCommand_counter:
  assumes "ExecCommand c n0 command received delivered = Some (r, c', n)"
  shows "\<exists>p. newClientPacket c TypeCommand command n0 = Some (p, n)"
  using assms
  by (auto simp: ExecCommand_def Let_def split: option.splits prod.splits outcome.splits)

text \<open>The two ways an \<open>ExecCommand\<close> call that returns can go.\<close>

lemma ExecCommand_cases:
  assumes "ExecCommand c n0 command received delivered = Some (r, c', n)"
  obtains (timeout) p where "newClientPacket c TypeCommand command n0 = Some (p, n)"
      "writer c \<noteq> Running \<or> \<not> received"
      "r = Err (Wrapped (Wrapped ErrQueueTimeout ''packet queue operation timed out'')
                 ''could not enqueue command packet'')"
      "c' = c"
  | (handoff) p where "newClientPacket c TypeCommand command n0 = Some (p, n)"
      "writer c = Running" "received"
      "r = (case delivered of
              None \<Rightarrow> Err (Wrapped (Wrapped ErrReadTimeout ''mailbox read operation timed out'')
                             ''could not get command response'')
            | Some res \<Rightarrow> Ok (butlast (Body res)))"
      "trace c' = trace c @ [Handoff p, MailboxCreated (ID p), MailboxClosed (ID p),
                             MailboxDeleted (ID p)]"
proof -
  obtain p where p: "newClientPacket c TypeCommand command n0 = Some (p, n)"
    and rest: "(case enqueuePacket c p True received of
             (Some e, c1) \<Rightarrow> (Err (Wrapped e ''could not enqueue command packet''), c1, n)
           | (None, c1) \<Rightarrow>
               (case getResponse c1 (ID p) delivered of
                  (Err e, c2) \<Rightarrow> (Err (Wrapped e ''could not get command response''), c2, n)
                | (Panic x, c2) \<Rightarrow> (Panic x, c2, n)
                | (Ok res, c2) \<Rightarrow>
                    (let b = Body res;
                         b = butlast b
                     in (Ok b, c2, n)))) = (r, c', n)"
    using assms ExecCommand_counter [OF assms] by (auto simp: ExecCommand_def)
  show thesis
  proof (cases "writer c = Running \<and> received")
    case False
    then have "writer c \<noteq> Running \<or> \<not> received" by blast
    moreover from this rest have
      "r = Err (Wrapped (Wrapped ErrQueueTimeout ''packet queue operation timed out'')
                 ''could not enqueue command packet'')" "c' = c"
      by (simp_all add: enqueuePacket_timeout)
    ultimately show thesis using p timeout by blast
  next
    case True
    from rest have "r = (case delivered of
              None \<Rightarrow> Err (Wrapped (Wrapped ErrReadTimeout ''mailbox read operation timed out'')
                             ''could not get command response'')
            | Some res \<Rightarrow> Ok (butlast (Body res)))"
      and "trace c' = trace c @ [Handoff p, MailboxCreated (ID p), MailboxClosed (ID p),
                             MailboxDeleted (ID p)]"
      using True
      by (auto simp: enqueuePacket_def getResponse_def Let_def split: option.splits)
    then show thesis using p True handoff by blast
  qed
qed

lemma ExecCommand_returns:
  assumes "0 \<le> sint n0" "sint n0 \<le> 2 ^ 31 - 2"
    and "\<exists>y. 1 \<le> sint y \<and> sint y \<le> 2 ^ 31 - 2 \<and> y \<notin> set (RestrictedPacketIDs c)"
  shows "\<exists>r c' n. ExecCommand c n0 command received delivered = Some (r, c', n)"
proof -
  obtain z where "getNextID (RestrictedPacketIDs c) n0 = Some z"
    using getNextID_returns [OF assms] by blast
  then have "ExecCommand c n0 command received delivered \<noteq> None"
    by (simp add: ExecCommand_def newClientPacket_def NewClientPacket_def)
  then obtain x where "ExecCommand c n0 command received delivered = Some x"
    by blast
  then show ?thesis by (cases x) blast
qed

text \<open>
  C3 (as amended). \<open>ExecCommand\<close> never returns \<open>ErrNotConnected\<close>: the only errors it
  returns are the queue timeout and the read timeout. On a client whose writer
  goroutine is not running, which is the case before \<open>Connect\<close> and on a closed session
  once the writer has seen the termination signal, the call returns, and what it
  returns is the queue timeout, whatever the scheduler decides.
\<close>

theorem C3_exec_command_times_out:
  "(ExecCommand c n0 command received delivered = Some (r, c', n) \<longrightarrow>
      (\<forall>e. r = Err e \<longrightarrow> Cause e = ErrQueueTimeout \<or> Cause e = ErrReadTimeout)) \<and>
   (writer c \<noteq> Running \<and> 0 \<le> sint n0 \<and> sint n0 \<le> 2 ^ 31 - 2 \<and>
      (\<exists>y. 1 \<le> sint y \<and> sint y \<le> 2 ^ 31 - 2 \<and> y \<notin> set (RestrictedPacketIDs c)) \<longrightarrow>
      (\<exists>e st. ExecCommand c n0 command received delivered = Some (Err e, st) \<and>
         Cause e = ErrQueueTimeout)) \<and>
   writer (NewClient config) = NotStarted \<and>
   (terminateClosed c \<longrightarrow> writer (writerTerminates c) \<noteq> Running)"
proof (intro conjI impI allI)
  fix e
  assume ex: "ExecCommand c n0 command received delivered = Some (r, c', n)" and r: "r = Err e"
  from ex show "Cause e = ErrQueueTimeout \<or> Cause e = ErrReadTimeout"
  proof (cases rule: ExecCommand_cases)
    case (timeout p)
    with r show ?thesis by auto
  next
    case (handoff p)
    with r show ?thesis by (cases delivered) auto
  qed
next
  assume h: "writer c \<noteq> Running \<and> 0 \<le> sint n0 \<and> sint n0 \<le> 2 ^ 31 - 2 \<and>
      (\<exists>y. 1 \<le> sint y \<and> sint y \<le> 2 ^ 31 - 2 \<and> y \<notin> set (RestrictedPacketIDs c))"
  then obtain r c' n where ex: "ExecCommand c n0 command received delivered = Some (r, c', n)"
    using ExecCommand_returns [of n0 c command received delivered] by blast
  from ex show "\<exists>e st. ExecCommand c n0 command received delivered = Some (Err e, st) \<and>
         Cause e = ErrQueueTimeout"
  proof (cases rule: ExecCommand_cases)
    case (timeout p)
    with ex show ?thesis by simp
  next
    case (handoff p)
    with h show ?thesis by simp
  qed
next
  show "writer (NewClient config) = NotStarted" by (simp add: NewClient_def)
next
  assume "terminateClosed c"
  then show "writer (writerTerminates c) \<noteq> Running" by (simp add: writerTerminates_def)
qed

theorem C3_exec_command_witness:
  "writer (NewClient \<lparr>Password = [112, 119], EndianMode = Little,
                 BroadcastChecker = defaultBroadcastChecker, hasBroadcastHandler = False,
                 hasDisconnectHandler = False, RestrictedPacketIDs = [1, 2]\<rparr>) \<noteq> Running \<and>
   (\<exists>e. map_option fst (ExecCommand
       (NewClient \<lparr>Password = [112, 119], EndianMode = Little,
                   BroadcastChecker = defaultBroadcastChecker, hasBroadcastHandler = False,
                   hasDisconnectHandler = False, RestrictedPacketIDs = [1, 2]\<rparr>)
       0 [108, 115] True None) = Some (Err e) \<and> Cause e = ErrQueueTimeout)"
proof -
  define c where "c = NewClient \<lparr>Password = [112, 119], EndianMode = Little,
                 BroadcastChecker = defaultBroadcastChecker, hasBroadcastHandler = False,
                 hasDisconnectHandler = False, RestrictedPacketIDs = [1, 2]\<rparr>"
  have w: "writer c \<noteq> Running" by (simp add: c_def NewClient_def)
  have n: "0 \<le> sint (0 :: int32) \<and> sint (0 :: int32) \<le> 2 ^ 31 - 2" by simp
  have "1 \<le> sint (3 :: int32) \<and> sint (3 :: int32) \<le> 2 ^ 31 - 2 \<and>
      (3 :: int32) \<notin> set (RestrictedPacketIDs c)"
    by (simp add: c_def NewClient_def)
  then have f: "\<exists>y. 1 \<le> sint y \<and> sint y \<le> 2 ^ 31 - 2 \<and> y \<notin> set (RestrictedPacketIDs c)"
    by blast
  from C3_exec_command_times_out [of c 0 "[108, 115]" True None] w n f
  obtain e st where "ExecCommand c 0 [108, 115] True None = Some (Err e, st)"
    and "Cause e = ErrQueueTimeout"
    by blast
  then have "\<exists>e. map_option fst (ExecCommand c 0 [108, 115] True None) = Some (Err e) \<and>
      Cause e = ErrQueueTimeout"
    by auto
  with w show ?thesis unfolding c_def by blast
qed

text \<open>
  C3 as stated fails: on a client that was never connected, and on one that was
  connected and closed and whose writer has returned, \<open>ExecCommand\<close> returns the queue
  timeout, not \<open>ErrNotConnected\<close>, while \<open>Close\<close> on the same closed session does return
  \<open>ErrNotConnected\<close>.
\<close>

theorem C3_counterexample:
  "map_option fst (ExecCommand
     (NewClient \<lparr>Password = [112, 119], EndianMode = Little,
                 BroadcastChecker = defaultBroadcastChecker, hasBroadcastHandler = False,
                 hasDisconnectHandler = False, RestrictedPacketIDs = []\<rparr>)
     0 [108, 115] True None) =
   Some (Err (Wrapped (Wrapped ErrQueueTimeout ''packet queue operation timed out'')
               ''could not enqueue command packet'')) \<and>
   map_option fst (ExecCommand
     (writerTerminates (snd (Close
        \<lparr>Password = [112, 119], EndianMode = Little,
         BroadcastChecker = defaultBroadcastChecker, hasBroadcastHandler = False,
         hasDisconnectHandler = False, RestrictedPacketIDs = [],
         conn = Some \<lparr>incoming = NewReader [], written = [], closed = False\<rparr>,
         terminateClosed = False, writer = Running, reader = Running,
         readQueue = Map.empty, trace = []\<rparr>)))
     1 [108, 115] True None) =
   Some (Err (Wrapped (Wrapped ErrQueueTimeout ''packet queue operation timed out'')
               ''could not enqueue command packet'')) \<and>
   Cause (Wrapped (Wrapped ErrQueueTimeout ''packet queue operation timed out'')
               ''could not enqueue command packet'') \<noteq> ErrNotConnected"
  by (simp add: ExecCommand_def newClientPacket_def NewClientPacket_def getNextID_def
      advance_def MaxInt32_def skipRestricted_stop NewClient_def enqueuePacket_def
      Close_def disconnect_def writerTerminates_def Let_def)

subsection \<open>Order of hand-off and mailbox creation\<close>

lemma callTrace_append: "trace c' = trace c @ es \<Longrightarrow> callTrace c c' = es"
  by (simp add: callTrace_def)

text \<open>
  C4 (as amended). In every \<open>ExecCommand\<close> call that creates a mailbox, the packet has
  been handed to the send queue before the mailbox for its ID is inserted: in the
  events of the call, the hand-off of the packet with that ID comes first and the
  creation of the mailbox after it, never the other way round.
\<close>

theorem C4_mailbox_after_handoff:
  assumes "ExecCommand c n0 command received delivered = Some (r, c', n)"
    and "MailboxCreated i \<in> set (callTrace c c')"
  shows "\<exists>p. ID p = i \<and> before (Handoff p) (MailboxCreated i) (callTrace c c') \<and>
           \<not> before (MailboxCreated i) (Handoff p) (callTrace c c')"
  using assms(1)
proof (cases rule: ExecCommand_cases)
  case (timeout p)
  then have "callTrace c c' = []" by (simp add: callTrace_def)
  with assms(2) show ?thesis by simp
next
  case (handoff p)
  then have ct: "callTrace c c' =
      [Handoff p, MailboxCreated (ID p), MailboxClosed (ID p), MailboxDeleted (ID p)]"
    by (simp add: callTrace_append)
  with assms(2) have "i = ID p" by auto
  with ct show ?thesis by auto
qed

theorem C4_mailbox_after_handoff_witness:
  "execTrace
     \<lparr>Password = [112, 119], EndianMode = Little,
      BroadcastChecker = defaultBroadcastChecker, hasBroadcastHandler = False,
      hasDisconnectHandler = False, RestrictedPacketIDs = [],
      conn = Some \<lparr>incoming = NewReader [], written = [], closed = False\<rparr>,
      terminateClosed = False, writer = Running, reader = Running,
      readQueue = Map.empty, trace = []\<rparr> 6 [108, 115] True None =
     Some [Handoff \<lparr>mode = Little, pType = 2, body = [108, 115], idf = 7\<rparr>, MailboxCreated 7,
           MailboxClosed 7, MailboxDeleted 7] \<and>
   (\<exists>p. ID p = 7 \<and>
      before (Handoff p) (MailboxCreated 7)
        [Handoff \<lparr>mode = Little, pType = 2, body = [108, 115], idf = 7\<rparr>, MailboxCreated 7,
         MailboxClosed 7, MailboxDeleted 7] \<and>
      \<not> before (MailboxCreated 7) (Handoff p)
        [Handoff \<lparr>mode = Little, pType = 2, body = [108, 115], idf = 7\<rparr>, MailboxCreated 7,
         MailboxClosed 7, MailboxDeleted 7])"
proof -
  define c where "c = \<lparr>Password = [112, 119], EndianMode = Little,
      BroadcastChecker = defaultBroadcastChecker, hasBroadcastHandler = False,
      hasDisconnectHandler = False, RestrictedPacketIDs = [],
      conn = Some \<lparr>incoming = NewReader [], written = [], closed = False\<rparr>,
      terminateClosed = False, writer = Running, reader = Running,
      readQueue = Map.empty, trace = []\<rparr>"
  obtain r c' n where ex: "ExecCommand c 6 [108, 115] True None = Some (r, c', n)"
    by (cases "ExecCommand c 6 [108, 115] True None")
       (auto simp: ExecCommand_def newClientPacket_def NewClientPacket_def getNextID_def
          advance_def MaxInt32_def skipRestricted_stop c_def)
  have tr: "callTrace c c' =
      [Handoff \<lparr>mode = Little, pType = 2, body = [108, 115], idf = 7\<rparr>, MailboxCreated 7,
       MailboxClosed 7, MailboxDeleted 7]"
    using ex
    by (auto simp: ExecCommand_def newClientPacket_def NewClientPacket_def getNextID_def
        advance_def MaxInt32_def skipRestricted_stop c_def enqueuePacket_def getResponse_def
        Let_def ID_def TypeCommand_def callTrace_def)
  then have m: "MailboxCreated 7 \<in> set (callTrace c c')" by simp
  from C4_mailbox_after_handoff [OF ex m] tr ex
  show ?thesis
    unfolding c_def [symmetric] by (simp add: execTrace_def)
qed

text \<open>
  C4 as stated fails: in the call below the mailbox for ID 1 is created after the
  packet with ID 1 was handed to the send queue, not before.
\<close>

theorem C4_counterexample:
  "execTrace
     \<lparr>Password = [112, 119], EndianMode = Little,
      BroadcastChecker = defaultBroadcastChecker, hasBroadcastHandler = False,
      hasDisconnectHandler = False, RestrictedPacketIDs = [],
      conn = Some \<lparr>incoming = NewReader [], written = [], closed = False\<rparr>,
      terminateClosed = False, writer = Running, reader = Running,
      readQueue = Map.empty, trace = []\<rparr> 0 [108, 115] True None =
     Some [Handoff \<lparr>mode = Little, pType = 2, body = [108, 115], idf = 1\<rparr>, MailboxCreated 1,
           MailboxClosed 1, MailboxDeleted 1] \<and>
   \<not> before (MailboxCreated 1) (Handoff \<lparr>mode = Little, pType = 2, body = [108, 115], idf = 1\<rparr>)
       [Handoff \<lparr>mode = Little, pType = 2, body = [108, 115], idf = 1\<rparr>, MailboxCreated 1,
        MailboxClosed 1, MailboxDeleted 1]"
  by (simp add: execTrace_def ExecCommand_def newClientPacket_def NewClientPacket_def
      getNextID_def advance_def MaxInt32_def skipRestricted_stop enqueuePacket_def
      getResponse_def Let_def ID_def TypeCommand_def callTrace_def)

subsection \<open>Shutdown\<close>

lemma terminateFirings_append [simp]:
  "terminateFirings (xs @ ys) = terminateFirings xs + terminateFirings ys"
  by (induction xs) (simp_all add: terminateFirings_def)

lemma sinkCalls_append [simp]: "sinkCalls (xs @ ys) = sinkCalls xs + sinkCalls ys"
  by (simp add: sinkCalls_def)

lemma readPacket_shutdown_state:
  assumes "readPacket c = (r, c1)"
  shows "terminateClosed c1 = terminateClosed c \<and> trace c1 = trace c \<and>
         (conn c1 = None \<longleftrightarrow> conn c = None) \<and>
         (conn c = None \<longrightarrow> r = Err ErrNotConnected \<and> c1 = c)"
  using assms
  by (auto simp: readPacket_def readPacketTimeout_def split: option.splits if_splits prod.splits
      outcome.splits)


text \<open>
  A session as \<open>NewClient\<close> and \<open>Connect\<close> leave it has fired nothing: neither touches the
  termination channel or the trace.
\<close>

lemma sendPacket_shutdown_state:
  "sendPacket c p = (r, c1) \<Longrightarrow> terminateClosed c1 = terminateClosed c \<and> trace c1 = trace c"
  by (auto simp: sendPacket_def write_conn_def Build_eq split: option.splits prod.splits
      outcome.splits)

lemma authenticate_shutdown_state:
  assumes "authenticate c n0 = Some (r, c', n)"
  shows "terminateClosed c' = terminateClosed c \<and> trace c' = trace c"
proof -
  obtain p m where p: "newClientPacket c TypeAuth (Password c) n0 = Some (p, m)"
    using assms by (auto simp: authenticate_def split: option.splits)
  obtain r1 c1 where s: "sendPacket c p = (r1, c1)" by (cases "sendPacket c p")
  obtain r2 c2 where q: "readPacketTimeout c1 = (r2, c2)" by (cases "readPacketTimeout c1")
  have a: "terminateClosed c1 = terminateClosed c \<and> trace c1 = trace c"
    using sendPacket_shutdown_state [OF s] .
  have b: "terminateClosed c2 = terminateClosed c1 \<and> trace c2 = trace c1"
    using readPacket_shutdown_state [of c1 r2 c2] q by (simp add: readPacket_def)
  have "c' = c1 \<or> c' = c2"
    using assms p s q
    by (auto simp: authenticate_def Let_def split: outcome.splits if_splits)
  with a b show ?thesis by auto
qed

lemma Connect_fresh:
  assumes "Connect (NewClient config) dial n0 = Some (r, c, n)"
  shows "\<not> terminateClosed c \<and> trace c = []"
proof (cases dial)
  case (Inl e)
  with assms show ?thesis by (auto simp: Connect_def NewClient_def)
next
  case (Inr k)
  let ?c0 = "(NewClient config)\<lparr>conn := Some k\<rparr>"
  have c0: "\<not> terminateClosed ?c0 \<and> trace ?c0 = []" by (simp add: NewClient_def)
  show ?thesis
  proof (cases "SetDeadline k")
    case (Some e)
    with assms Inr c0 show ?thesis by (auto simp: Connect_def Let_def)
  next
    case None
    then obtain r' c1 where au: "authenticate ?c0 n0 = Some (r', c1, n)"
      and c: "c = c1 \<or> c = c1\<lparr>writer := Running, reader := Running\<rparr>"
      using assms Inr
      by (auto simp: Connect_def Let_def split: option.splits outcome.splits)
    from authenticate_shutdown_state [OF au] c0 c show ?thesis by auto
  qed
qed


text \<open>
  Run without interruption, the statements of a \<open>Close\<close> call are the function \<open>Close\<close>.
\<close>

lemma runThread_Close:
  "runThread 5 UserClose CloseGuard c = (Finished (fst (Close c)), snd (Close c))"
  by (simp add: numeral_eq_Suc Close_def disconnect_def Let_def split: option.splits)



lemma firedThreads_append [simp]: "firedThreads (ts @ us) = firedThreads ts + firedThreads us"
  by (simp add: firedThreads_def)

lemma writerTerminates_shutdown_state [simp]:
  "terminateClosed (writerTerminates c) = terminateClosed c"
  "trace (writerTerminates c) = trace c"
  by (simp_all add: writerTerminates_def)





text \<open>
  Run without interruption on an open socket, the three statements of the reader's
  read are the function \<open>readPacket\<close>, followed by the \<open>switch\<close> or the dispatch.
\<close>

lemma runThread_readPacket:
  assumes "conn c = Some k" and "\<not> closed k"
  shows "runThread 3 Reader ReadGuard c =
           (case readPacket c of
              (Err e, c1) \<Rightarrow> (readerSwitch e, c1)
            | (Panic x, c1) \<Rightarrow> (Finished (Panic x), c1)
            | (Ok p, c1) \<Rightarrow> (ReadGuard, dispatch c1 p))"
  using assms
  by (simp add: numeral_eq_Suc readPacket_def readPacketTimeout_def SetDeadline_def
      split: prod.splits outcome.splits)

end
